theory Spec2Isabelle
  imports Complex_Main "HOL-Library.Word"
begin

unbundle bit_operations_syntax

section \<open>Machine types\<close>

text \<open>
  The fixed-width unsigned integers of vppinfra. Arithmetic on them wraps modulo
  \<open>2 ^ w\<close>, as C arithmetic on \<open>u32\<close> does; \<open>sint\<close> reads a word as the two's
  complement \<open>i32\<close> the casts of \<open>tcp.h\<close> produce.
\<close>

type_synonym u8 = "8 word"
type_synonym u16 = "16 word"
type_synonym u32 = "32 word"
type_synonym u64 = "64 word"

section \<open>Constants (tcp.h, lines 27-104)\<close>

text \<open>
  \<open>TCP_TICK\<close>, \<open>TCP_TIMER_TICK\<close> and \<open>TCP_RTO_MIN\<close> are decimal literals and products of
  them; they are modelled by the real numbers the literals denote. \<open>THZ\<close> is
  \<open>(u32) (1/TCP_TICK)\<close>: the cast truncates, which on a positive value is the floor.
\<close>

definition TCP_TICK :: real where
  "TCP_TICK = 0.001"

definition THZ :: u32 where
  "THZ = word_of_int \<lfloor>1 / TCP_TICK\<rfloor>"

definition TCP_TIMER_TICK :: real where
  "TCP_TIMER_TICK = 0.1"

definition TCP_TO_TIMER_TICK :: real where
  "TCP_TO_TIMER_TICK = TCP_TICK * 10"

definition TCP_RTO_MAX :: u32 where
  "TCP_RTO_MAX = 60 * THZ"

definition TCP_RTO_MIN :: real where
  "TCP_RTO_MIN = 0.2 * real (unat THZ)"

definition TCP_RTO_INIT :: u32 where
  "TCP_RTO_INIT = 1 * THZ"

definition TCP_TIMER_HANDLE_INVALID :: u32 where
  "TCP_TIMER_HANDLE_INVALID = NOT 0"

section \<open>Enumerations (tcp.h, lines 42-83)\<close>

text \<open>
  A C enumeration generated by an X-macro: the macro is the list of (symbol, string)
  pairs, an enumerator's value is its position in that list, and the closing enumerator
  (\<open>TCP_N_STATES\<close>, \<open>TCP_N_TIMERS\<close>) is the number of entries before it.
\<close>

definition enum_val :: "'a list \<Rightarrow> 'a \<Rightarrow> nat" where
  "enum_val xs x = length (takeWhile (\<lambda>y. y \<noteq> x) xs)"

datatype tcp_state_t =
    TCP_STATE_CLOSED
  | TCP_STATE_LISTEN
  | TCP_STATE_SYN_SENT
  | TCP_STATE_SYN_RCVD
  | TCP_STATE_ESTABLISHED
  | TCP_STATE_CLOSE_WAIT
  | TCP_STATE_FIN_WAIT_1
  | TCP_STATE_LAST_ACK
  | TCP_STATE_CLOSING
  | TCP_STATE_FIN_WAIT_2
  | TCP_STATE_TIME_WAIT

definition foreach_tcp_fsm_state :: "(tcp_state_t \<times> string) list" where
  "foreach_tcp_fsm_state =
    [(TCP_STATE_CLOSED, ''CLOSED''),
     (TCP_STATE_LISTEN, ''LISTEN''),
     (TCP_STATE_SYN_SENT, ''SYN_SENT''),
     (TCP_STATE_SYN_RCVD, ''SYN_RCVD''),
     (TCP_STATE_ESTABLISHED, ''ESTABLISHED''),
     (TCP_STATE_CLOSE_WAIT, ''CLOSE_WAIT''),
     (TCP_STATE_FIN_WAIT_1, ''FIN_WAIT_1''),
     (TCP_STATE_LAST_ACK, ''LAST_ACK''),
     (TCP_STATE_CLOSING, ''CLOSING''),
     (TCP_STATE_FIN_WAIT_2, ''FIN_WAIT_2''),
     (TCP_STATE_TIME_WAIT, ''TIME_WAIT'')]"

definition TCP_N_STATES :: nat where
  "TCP_N_STATES = length foreach_tcp_fsm_state"

definition tcp_state_val :: "tcp_state_t \<Rightarrow> nat" where
  "tcp_state_val s = enum_val (map fst foreach_tcp_fsm_state) s"

datatype tcp_timers_e =
    TCP_TIMER_RETRANSMIT
  | TCP_TIMER_DELACK
  | TCP_TIMER_PERSIST
  | TCP_TIMER_WAITCLOSE
  | TCP_TIMER_RETRANSMIT_SYN

definition foreach_tcp_timer :: "(tcp_timers_e \<times> string) list" where
  "foreach_tcp_timer =
    [(TCP_TIMER_RETRANSMIT, ''RETRANSMIT''),
     (TCP_TIMER_DELACK, ''DELAYED ACK''),
     (TCP_TIMER_PERSIST, ''PERSIST''),
     (TCP_TIMER_WAITCLOSE, ''WAIT CLOSE''),
     (TCP_TIMER_RETRANSMIT_SYN, ''RETRANSMIT SYN'')]"

definition TCP_N_TIMERS :: nat where
  "TCP_N_TIMERS = length foreach_tcp_timer"

definition tcp_timer_val :: "tcp_timers_e \<Rightarrow> nat" where
  "tcp_timer_val t = enum_val (map fst foreach_tcp_timer) t"

section \<open>The dispatch table (tcp.h, lines 497-500 and 618)\<close>

text \<open>
  \<open>tcp_lookup_dispatch_t\<close> is the struct \<open>{ u8 next, error; }\<close>. The member
  \<open>dispatch_table[TCP_N_STATES][64]\<close> of \<open>tcp_main_t\<close> is a two-dimensional array:
  \<open>dispatch_table_dims\<close> are its declared dimensions, and \<open>dispatch_table_index\<close>
  is the position addressed by a state and a combination of the six flag bits.
\<close>

record tcp_lookup_dispatch_t =
  dispatch_next :: u8
  dispatch_error :: u8

type_synonym tcp_dispatch_table = "tcp_lookup_dispatch_t list list"

definition dispatch_table_dims :: "nat \<times> nat" where
  "dispatch_table_dims = (TCP_N_STATES, 64)"

definition dispatch_table_index :: "tcp_state_t \<times> 6 word \<Rightarrow> nat \<times> nat" where
  "dispatch_table_index sf = (tcp_state_val (fst sf), unat (snd sf))"

section \<open>Sequence-number arithmetic (tcp.h, lines 867-872)\<close>

text \<open>
  The macros subtract in \<open>u32\<close> and compare the difference, cast to \<open>i32\<close>, with 0.
\<close>

definition seq_lt :: "u32 \<Rightarrow> u32 \<Rightarrow> bool" where
  "seq_lt s1 s2 \<longleftrightarrow> sint (s1 - s2) < 0"

definition seq_leq :: "u32 \<Rightarrow> u32 \<Rightarrow> bool" where
  "seq_leq s1 s2 \<longleftrightarrow> sint (s1 - s2) \<le> 0"

definition seq_gt :: "u32 \<Rightarrow> u32 \<Rightarrow> bool" where
  "seq_gt s1 s2 \<longleftrightarrow> sint (s1 - s2) > 0"

definition seq_geq :: "u32 \<Rightarrow> u32 \<Rightarrow> bool" where
  "seq_geq s1 s2 \<longleftrightarrow> sint (s1 - s2) \<ge> 0"

definition seq_max :: "u32 \<Rightarrow> u32 \<Rightarrow> u32" where
  "seq_max s1 s2 = (if seq_gt s1 s2 then s1 else s2)"

section \<open>Failures\<close>

text \<open>
  The ways a call can fail to return normally. \<open>ASSERT\<close> of vppinfra is compiled in
  only when \<open>CLIB_ASSERT_ENABLE\<close> is set (debug builds); there a failed assertion
  aborts. Each assertion of the modelled functions has its own constructor. A division
  by zero traps. An index outside a C array is undefined behaviour and is reported as
  \<open>INDEX_OUT_OF_BOUNDS\<close>. \<open>TW_NO_FREE_HANDLE\<close> belongs to the modelled timer wheel.
\<close>

datatype clib_fault =
    ASSERT_thread_index
  | ASSERT_timer_handle_invalid
  | ASSERT_flight_size
  | DIVIDE_BY_ZERO
  | INDEX_OUT_OF_BOUNDS
  | TW_NO_FREE_HANDLE

text \<open>
  What a call reads from its execution context: whether assertions are compiled in, and
  the index \<open>vlib_get_thread_index ()\<close> of the thread that executes the call.
\<close>

record vlib_env =
  CLIB_ASSERT_ENABLE :: bool
  vlib_get_thread_index :: u32

text \<open>
  Modelled from the spec: the macro \<open>clib_min\<close> of vppinfra is not among the sources.
  It evaluates both arguments once and yields \<open>x < y ? x : y\<close>.
\<close>

definition clib_min :: "'a::linorder \<Rightarrow> 'a \<Rightarrow> 'a" where
  "clib_min x y = (if x < y then x else y)"

section \<open>Floating point\<close>

text \<open>
  \<open>f64\<close> is a type parameter \<open>'f64\<close>, and the floating-point operations a function
  uses are passed to it as a record: conversion from \<open>u32\<close>, the value of a decimal
  literal, product, quotient, comparison and the conversion to \<open>u64\<close>. Nothing is
  assumed about them, so what is proved holds for IEEE arithmetic as for any other.
\<close>

record 'f64 f64_ops =
  f64_of_u32 :: "u32 \<Rightarrow> 'f64"
  f64_of_literal :: "real \<Rightarrow> 'f64"
  f64_mul :: "'f64 \<Rightarrow> 'f64 \<Rightarrow> 'f64"
  f64_div :: "'f64 \<Rightarrow> 'f64 \<Rightarrow> 'f64"
  f64_less :: "'f64 \<Rightarrow> 'f64 \<Rightarrow> bool"
  f64_to_u64 :: "'f64 \<Rightarrow> u64"

definition clib_min_f64 :: "'f64 f64_ops \<Rightarrow> 'f64 \<Rightarrow> 'f64 \<Rightarrow> 'f64" where
  "clib_min_f64 F x y = (if f64_less F x y then x else y)"

section \<open>The connection (tcp.h, lines 329-438)\<close>

text \<open>
  Modelled from the spec: \<open>tcp_options_t\<close> and the macro \<open>tcp_opts_sack_permitted\<close>
  (tcp_packet.h) are not among the sources. The macro tests one bit of the options'
  flags; the bit is kept as a boolean.
\<close>

record tcp_options_t =
  sack_permitted :: bool

definition tcp_opts_sack_permitted :: "tcp_options_t \<Rightarrow> bool" where
  "tcp_opts_sack_permitted to = sack_permitted to"

text \<open>The counters of \<open>sack_scoreboard_t\<close> that the modelled functions read.\<close>

record sack_scoreboard_t =
  sacked_bytes :: u32
  lost_bytes :: u32

text \<open>
  The fields of \<open>tcp_connection_t\<close> that the modelled functions read or write, with
  their C types. \<open>c_thread_index\<close> and \<open>c_c_index\<close> are the thread and pool index of
  the embedded transport connection. \<open>timers\<close> is the array \<open>u32 timers[TCP_N_TIMERS]\<close>.
  \<open>cc_algo\<close> is a pointer: the address of an algorithm table, read through a store.
\<close>

record 'f64 tcp_connection_t =
  c_thread_index :: u32
  c_c_index :: u32
  state :: u8
  timers :: "u32 list"
  snd_una :: u32
  snd_nxt :: u32
  snd_mss :: u16
  rcv_opts :: tcp_options_t
  sack_sb :: sack_scoreboard_t
  rcv_dupacks :: u16
  cwnd :: u32
  cwnd_acc_bytes :: u32
  ssthresh :: u32
  snd_rxt_bytes :: u32
  rxt_delivered :: u32
  tx_fifo_size :: u32
  cc_algo :: nat
  srtt :: u32
  mrtt_us :: 'f64

text \<open>
  \<open>struct _tcp_cc_algorithm\<close>: a table of function pointers, any of which may be null.
  Only the hook the modelled code calls is kept.
\<close>

record 'f64 tcp_cc_algorithm_t =
  get_pacing_rate :: "('f64 tcp_connection_t \<Rightarrow> u64) option"

section \<open>Pools\<close>

text \<open>
  Modelled from the spec: the pools of vppinfra are not among the sources. A pool is a
  vector of slots, each allocated (\<open>Some\<close>) or free (\<open>None\<close>); a pool pointer may be
  null (\<open>None\<close>).
\<close>

type_synonym 'a pool = "'a option list option"

text \<open>
  The two pool macros the lookups call, \<open>pool_is_free_index\<close> and
  \<open>pool_elt_at_index\<close>, are not among the sources either: the lookups take them as
  parameters, and \<open>'p\<close> is the type of the pointers that \<open>pool_elt_at_index\<close> yields.
\<close>

record ('a, 'p) pool_macros =
  pool_is_free_index :: "'a pool \<Rightarrow> u32 \<Rightarrow> bool"
  pool_elt_at_index :: "'a pool \<Rightarrow> u32 \<Rightarrow> 'p"

text \<open>
  Modelled from the spec: the macros for a pool that is a vector of slots. An index is
  free when it lies beyond the vector (a null pool has no slots) or its slot is free.
  The element at an index is addressed whatever the slot holds; the address is kept as
  the offset from the pool's base, which is how arp.c takes it when it stores
  \<open>pool_elt_at_index (P, I) - P\<close> as the index.
\<close>

definition vec_pool_macros :: "('a, nat) pool_macros" where
  "vec_pool_macros =
     \<lparr>pool_is_free_index =
        (\<lambda>P I. case P of
                 None \<Rightarrow> True
               | Some es \<Rightarrow> (if unat I < length es then es ! unat I = None else True)),
      pool_elt_at_index = (\<lambda>P I. unat I)\<rparr>"

section \<open>The timer wheel\<close>

text \<open>
  Modelled from the spec: the timer wheel (\<open>tw_timer_start_16t_2w_512sl\<close>,
  \<open>tw_timer_stop_16t_2w_512sl\<close>, \<open>tw_timer_update_16t_2w_512sl\<close>) is not among the
  sources. A handle is either the invalid sentinel or an opaque reference into the
  wheel: the wheel is a pool of running timers and a reference is the index of a slot.
  Starting a timer takes the first free slot, records the owner (connection index and
  timer kind) and the interval, and returns the slot's index, which is never the
  sentinel; when no such index is left the start fails. Stopping frees the slot.
  Updating restarts the timer of the slot with a new interval.
\<close>

record tw_timer_t =
  tw_pool_index :: u32
  tw_timer_id :: u8
  tw_interval :: u32

type_synonym tw_timer_wheel = "tw_timer_t option list"

text \<open>
  Modelled from the spec: the index of the first free slot of the wheel's pool (not
  among the sources), or its length when every slot is taken.
\<close>

fun tw_first_free :: "tw_timer_wheel \<Rightarrow> nat" where
  "tw_first_free [] = 0"
| "tw_first_free (None # w) = 0"
| "tw_first_free (Some t # w) = Suc (tw_first_free w)"

text \<open>
  Modelled from the spec: \<open>tw_timer_start_16t_2w_512sl\<close> (not among the sources)
  starts a timer for an owner and returns the reference, which is not the sentinel.
\<close>

definition tw_timer_start ::
    "tw_timer_wheel \<Rightarrow> u32 \<Rightarrow> u8 \<Rightarrow> u32 \<Rightarrow> (tw_timer_wheel \<times> u32) option" where
  "tw_timer_start w pool_index timer_id interval =
     (let i = tw_first_free w;
          t = \<lparr>tw_pool_index = pool_index, tw_timer_id = timer_id, tw_interval = interval\<rparr>
      in if i < unat TCP_TIMER_HANDLE_INVALID
         then Some (if i < length w then w[i := Some t] else w @ [Some t], of_nat i)
         else None)"

text \<open>
  Modelled from the spec: \<open>tw_timer_stop_16t_2w_512sl\<close> (not among the sources)
  cancels the timer a reference refers to.
\<close>

definition tw_timer_stop :: "tw_timer_wheel \<Rightarrow> u32 \<Rightarrow> tw_timer_wheel" where
  "tw_timer_stop w handle = (if unat handle < length w then w[unat handle := None] else w)"

text \<open>
  Modelled from the spec: \<open>tw_timer_update_16t_2w_512sl\<close> (not among the sources)
  restarts the timer a reference refers to with a new interval.
\<close>

definition tw_timer_update :: "tw_timer_wheel \<Rightarrow> u32 \<Rightarrow> u32 \<Rightarrow> tw_timer_wheel" where
  "tw_timer_update w handle interval =
     (if unat handle < length w
      then (case w ! unat handle of
              None \<Rightarrow> w
            | Some t \<Rightarrow> w[unat handle := Some (t\<lparr>tw_interval := interval\<rparr>)])
      else w)"

section \<open>Workers and the main structure (tcp.h, lines 502-662)\<close>

record tcp_worker_ctx_t =
  time_now :: u32
  timer_wheel :: tw_timer_wheel

text \<open>
  The members of \<open>tcp_main_t\<close> the modelled functions use. \<open>connections\<close> is the
  vector of the per-thread pool pointers, indexed by thread. \<open>wrk_ctx\<close>, also indexed
  by thread, is a function of the thread index. \<open>cc_algos\<close> is the store of algorithm
  tables that \<open>cc_algo\<close> points into.
\<close>

record 'f64 tcp_main_t =
  connections :: "'f64 tcp_connection_t pool list"
  dispatch_table :: tcp_dispatch_table
  wrk_ctx :: "u32 \<Rightarrow> tcp_worker_ctx_t"
  half_open_connections :: "'f64 tcp_connection_t pool"
  cc_algos :: "nat \<Rightarrow> 'f64 tcp_cc_algorithm_t"

section \<open>Connection lookup (tcp.h, lines 715-780)\<close>

text \<open>
  A returned pointer is an \<open>option\<close>: \<open>None\<close> is the null pointer 0, \<open>Some p\<close> the
  pointer \<open>p\<close> that \<open>pool_elt_at_index\<close> yields. Reading
  \<open>tcp_main.connections[thread_index]\<close> beyond the vector is undefined behaviour and is
  reported as \<open>INDEX_OUT_OF_BOUNDS\<close>.
\<close>

definition tcp_connection_get ::
    "('f64 tcp_connection_t, 'p) pool_macros \<Rightarrow> 'f64 tcp_main_t \<Rightarrow> u32 \<Rightarrow> u32
      \<Rightarrow> clib_fault + 'p option" where
  "tcp_connection_get M tm conn_index thread_index =
     (if \<not> unat thread_index < length (connections tm)
      then Inl INDEX_OUT_OF_BOUNDS
      else if pool_is_free_index M (connections tm ! unat thread_index) conn_index
      then Inr None
      else Inr (Some (pool_elt_at_index M (connections tm ! unat thread_index) conn_index)))"

definition tcp_connection_get_if_valid ::
    "('f64 tcp_connection_t, 'p) pool_macros \<Rightarrow> 'f64 tcp_main_t \<Rightarrow> u32 \<Rightarrow> u32
      \<Rightarrow> clib_fault + 'p option" where
  "tcp_connection_get_if_valid M tm conn_index thread_index =
     (if \<not> unat thread_index < length (connections tm)
      then Inl INDEX_OUT_OF_BOUNDS
      else if connections tm ! unat thread_index = None
      then Inr None
      else if pool_is_free_index M (connections tm ! unat thread_index) conn_index
      then Inr None
      else Inr (Some (pool_elt_at_index M (connections tm ! unat thread_index) conn_index)))"

text \<open>
  \<open>tcp_half_open_connection_get\<close> takes the half-open lock around the lookup and
  releases it before returning; the lock does not change what is looked up.
\<close>

definition tcp_half_open_connection_get ::
    "('f64 tcp_connection_t, 'p) pool_macros \<Rightarrow> 'f64 tcp_main_t \<Rightarrow> u32 \<Rightarrow> 'p option" where
  "tcp_half_open_connection_get M tm conn_index =
     (let tc = None;
          tc = (if \<not> pool_is_free_index M (half_open_connections tm) conn_index
                then Some (pool_elt_at_index M (half_open_connections tm) conn_index)
                else tc)
      in tc)"

section \<open>Bytes out and flight size (tcp.h, lines 878-905)\<close>

text \<open>
  In \<open>tcp_bytes_out\<close> the product \<open>rcv_dupacks * snd_mss\<close> of two \<open>u16\<close> is compared
  with a \<open>u32\<close>, so the comparison and the result are unsigned 32-bit.
\<close>

definition tcp_bytes_out :: "'f64 tcp_connection_t \<Rightarrow> u32" where
  "tcp_bytes_out tc =
     (if tcp_opts_sack_permitted (rcv_opts tc)
      then sacked_bytes (sack_sb tc) + lost_bytes (sack_sb tc)
      else clib_min (ucast (rcv_dupacks tc) * ucast (snd_mss tc))
                    (snd_nxt tc - snd_una tc))"

text \<open>
  In \<open>tcp_flight_size\<close> the sum is computed in \<open>u32\<close> (an \<open>int\<close> operand meets
  \<open>u32\<close> operands), stored in the \<open>int\<close> variable \<open>flight_size\<close>, asserted to be
  non-negative and returned as \<open>u32\<close>: the word is the same, \<open>sint\<close> is how the
  assertion reads it.
\<close>

definition tcp_flight_size :: "vlib_env \<Rightarrow> 'f64 tcp_connection_t \<Rightarrow> clib_fault + u32" where
  "tcp_flight_size env tc =
     (let flight_size = (snd_nxt tc - snd_una tc) - tcp_bytes_out tc
                          + snd_rxt_bytes tc - rxt_delivered tc
      in if CLIB_ASSERT_ENABLE env \<and> \<not> (0 \<le> sint flight_size)
         then Inl ASSERT_flight_size
         else Inr flight_size)"

text \<open>
  The quantity of the flight-size formula over the integers, without wrap-around, for
  comparison with what \<open>tcp_flight_size\<close> computes in 32 bits.
\<close>

definition flight_size_int :: "'f64 tcp_connection_t \<Rightarrow> int" where
  "flight_size_int tc =
     uint (snd_nxt tc - snd_una tc) - uint (tcp_bytes_out tc)
       + uint (snd_rxt_bytes tc) - uint (rxt_delivered tc)"

section \<open>Congestion window accumulation (tcp.h, lines 924-941)\<close>

definition tcp_cwnd_accumulate ::
    "'f64 tcp_connection_t \<Rightarrow> u32 \<Rightarrow> u32 \<Rightarrow> clib_fault + 'f64 tcp_connection_t" where
  "tcp_cwnd_accumulate tc thresh bytes =
     (let tc = tc\<lparr>cwnd_acc_bytes := cwnd_acc_bytes tc + bytes\<rparr>
      in if cwnd_acc_bytes tc \<ge> thresh
         then (if thresh = 0 then Inl DIVIDE_BY_ZERO
               else let inc = cwnd_acc_bytes tc div thresh;
                        tc = tc\<lparr>cwnd_acc_bytes := cwnd_acc_bytes tc - inc * thresh\<rparr>;
                        tc = tc\<lparr>cwnd := cwnd tc + inc * ucast (snd_mss tc)\<rparr>;
                        tc = tc\<lparr>cwnd := clib_min (cwnd tc) (tx_fifo_size tc)\<rparr>
                    in Inr tc)
         else Inr tc)"

section \<open>Pacing rate (tcp.h, lines 1093-1104)\<close>

definition tcp_cc_get_pacing_rate ::
    "'f64 f64_ops \<Rightarrow> 'f64 tcp_main_t \<Rightarrow> 'f64 tcp_connection_t \<Rightarrow> u64" where
  "tcp_cc_get_pacing_rate F tm tc =
     (case get_pacing_rate (cc_algos tm (cc_algo tc)) of
        Some hook \<Rightarrow> hook tc
      | None \<Rightarrow>
          (let srtt' = clib_min_f64 F (f64_mul F (f64_of_u32 F (srtt tc))
                                               (f64_of_literal F TCP_TICK))
                                    (mrtt_us tc)
           in f64_to_u64 F (f64_div F (f64_of_u32 F (cwnd tc)) srtt')))"

section \<open>Timers (tcp.h, lines 1106-1211)\<close>

text \<open>
  The three operations work on the wheel of the connection's worker,
  \<open>tcp_main.wrk_ctx[tc->c_thread_index].timer_wheel\<close>, and on the slot
  \<open>tc->timers[timer_id]\<close>. The connection is passed and returned by value.
\<close>

definition tcp_wheel :: "'f64 tcp_main_t \<Rightarrow> 'f64 tcp_connection_t \<Rightarrow> tw_timer_wheel" where
  "tcp_wheel tm tc = timer_wheel (wrk_ctx tm (c_thread_index tc))"

definition tcp_wheel_update ::
    "'f64 tcp_main_t \<Rightarrow> 'f64 tcp_connection_t \<Rightarrow> tw_timer_wheel \<Rightarrow> 'f64 tcp_main_t" where
  "tcp_wheel_update tm tc w =
     tm\<lparr>wrk_ctx := (wrk_ctx tm)
          (c_thread_index tc := (wrk_ctx tm (c_thread_index tc))\<lparr>timer_wheel := w\<rparr>)\<rparr>"

definition tcp_timer_set ::
    "vlib_env \<Rightarrow> 'f64 tcp_main_t \<Rightarrow> 'f64 tcp_connection_t \<Rightarrow> u8 \<Rightarrow> u32
      \<Rightarrow> clib_fault + ('f64 tcp_main_t \<times> 'f64 tcp_connection_t)" where
  "tcp_timer_set env tm tc timer_id interval =
     (if CLIB_ASSERT_ENABLE env \<and> c_thread_index tc \<noteq> vlib_get_thread_index env
      then Inl ASSERT_thread_index
      else if \<not> unat timer_id < length (timers tc)
      then Inl INDEX_OUT_OF_BOUNDS
      else if CLIB_ASSERT_ENABLE env \<and> timers tc ! unat timer_id \<noteq> TCP_TIMER_HANDLE_INVALID
      then Inl ASSERT_timer_handle_invalid
      else (case tw_timer_start (tcp_wheel tm tc) (c_c_index tc) timer_id interval of
              None \<Rightarrow> Inl TW_NO_FREE_HANDLE
            | Some (w, handle) \<Rightarrow>
                Inr (tcp_wheel_update tm tc w,
                     tc\<lparr>timers := (timers tc)[unat timer_id := handle]\<rparr>)))"

definition tcp_timer_reset ::
    "vlib_env \<Rightarrow> 'f64 tcp_main_t \<Rightarrow> 'f64 tcp_connection_t \<Rightarrow> u8
      \<Rightarrow> clib_fault + ('f64 tcp_main_t \<times> 'f64 tcp_connection_t)" where
  "tcp_timer_reset env tm tc timer_id =
     (if CLIB_ASSERT_ENABLE env \<and> c_thread_index tc \<noteq> vlib_get_thread_index env
      then Inl ASSERT_thread_index
      else if \<not> unat timer_id < length (timers tc)
      then Inl INDEX_OUT_OF_BOUNDS
      else if timers tc ! unat timer_id = TCP_TIMER_HANDLE_INVALID
      then Inr (tm, tc)
      else Inr (tcp_wheel_update tm tc
                  (tw_timer_stop (tcp_wheel tm tc) (timers tc ! unat timer_id)),
                tc\<lparr>timers := (timers tc)[unat timer_id := TCP_TIMER_HANDLE_INVALID]\<rparr>))"

definition tcp_timer_update ::
    "vlib_env \<Rightarrow> 'f64 tcp_main_t \<Rightarrow> 'f64 tcp_connection_t \<Rightarrow> u8 \<Rightarrow> u32
      \<Rightarrow> clib_fault + ('f64 tcp_main_t \<times> 'f64 tcp_connection_t)" where
  "tcp_timer_update env tm tc timer_id interval =
     (if CLIB_ASSERT_ENABLE env \<and> c_thread_index tc \<noteq> vlib_get_thread_index env
      then Inl ASSERT_thread_index
      else if \<not> unat timer_id < length (timers tc)
      then Inl INDEX_OUT_OF_BOUNDS
      else if timers tc ! unat timer_id \<noteq> TCP_TIMER_HANDLE_INVALID
      then Inr (tcp_wheel_update tm tc
                  (tw_timer_update (tcp_wheel tm tc) (timers tc ! unat timer_id) interval),
                tc)
      else (case tw_timer_start (tcp_wheel tm tc) (c_c_index tc) timer_id interval of
              None \<Rightarrow> Inl TW_NO_FREE_HANDLE
            | Some (w, handle) \<Rightarrow>
                Inr (tcp_wheel_update tm tc w,
                     tc\<lparr>timers := (timers tc)[unat timer_id := handle]\<rparr>)))"

definition tcp_timer_is_active :: "'f64 tcp_connection_t \<Rightarrow> tcp_timers_e \<Rightarrow> bool" where
  "tcp_timer_is_active tc timer \<longleftrightarrow>
     timers tc ! tcp_timer_val timer \<noteq> TCP_TIMER_HANDLE_INVALID"

section \<open>A concrete state\<close>

text \<open>
  A connection with \<open>snd_una = 1000\<close>, \<open>snd_nxt = 5000\<close>, \<open>snd_mss = 1000\<close> and 1500
  bytes sacked, owned by worker 1 and with no timer running; a main structure for two
  threads that holds it in slot 0 of worker 1's pool; an execution context on worker 1 with
  assertions compiled in. Here \<open>f64\<close> is read as \<open>real\<close>, with exact arithmetic and the
  conversion to \<open>u64\<close> truncating.
\<close>

definition ex_conn :: "real tcp_connection_t" where
  "ex_conn =
     \<lparr>c_thread_index = 1, c_c_index = 0, state = 4,
      timers = [TCP_TIMER_HANDLE_INVALID, TCP_TIMER_HANDLE_INVALID, TCP_TIMER_HANDLE_INVALID,
                TCP_TIMER_HANDLE_INVALID, TCP_TIMER_HANDLE_INVALID],
      snd_una = 1000, snd_nxt = 5000, snd_mss = 1000,
      rcv_opts = \<lparr>sack_permitted = True\<rparr>,
      sack_sb = \<lparr>sacked_bytes = 1500, lost_bytes = 0\<rparr>,
      rcv_dupacks = 0, cwnd = 10000, cwnd_acc_bytes = 1000, ssthresh = 8000,
      snd_rxt_bytes = 0, rxt_delivered = 0, tx_fifo_size = 65536,
      cc_algo = 0, srtt = 100, mrtt_us = 0.05\<rparr>"

definition ex_main :: "real tcp_main_t" where
  "ex_main =
     \<lparr>connections = [None, Some [Some ex_conn, None]],
      dispatch_table = [],
      wrk_ctx = (\<lambda>t. \<lparr>time_now = 0, timer_wheel = []\<rparr>),
      half_open_connections = Some [None, Some ex_conn],
      cc_algos = (\<lambda>a. \<lparr>get_pacing_rate = (if a = 0 then None else Some (\<lambda>tc. 42))\<rparr>)\<rparr>"

definition ex_env :: vlib_env where
  "ex_env = \<lparr>CLIB_ASSERT_ENABLE = True, vlib_get_thread_index = 1\<rparr>"

definition ex_f64_ops :: "real f64_ops" where
  "ex_f64_ops =
     \<lparr>f64_of_u32 = (\<lambda>x. real (unat x)),
      f64_of_literal = (\<lambda>r. r),
      f64_mul = (\<lambda>x y. x * y),
      f64_div = (\<lambda>x y. x / y),
      f64_less = (\<lambda>x y. x < y),
      f64_to_u64 = (\<lambda>x. word_of_int \<lfloor>x\<rfloor>)\<rparr>"

section \<open>Timer slots and the wheel\<close>

text \<open>
  \<open>tw_owner w handle\<close> is the owner (connection index and timer kind) of the running
  timer that \<open>handle\<close> refers to in the wheel \<open>w\<close>, if there is one. A slot of a
  connection is in order when it holds the invalid sentinel or refers to a running timer
  of the worker's wheel that this connection started for this kind; a connection's
  timers are in order when it has \<open>TCP_N_TIMERS\<close> slots and each is.
\<close>

definition tw_owner :: "tw_timer_wheel \<Rightarrow> u32 \<Rightarrow> (u32 \<times> u8) option" where
  "tw_owner w handle =
     (if unat handle < length w
      then map_option (\<lambda>t. (tw_pool_index t, tw_timer_id t)) (w ! unat handle)
      else None)"

definition tcp_timer_slot_ok ::
    "'f64 tcp_main_t \<Rightarrow> 'f64 tcp_connection_t \<Rightarrow> nat \<Rightarrow> bool" where
  "tcp_timer_slot_ok tm tc k \<longleftrightarrow>
     timers tc ! k = TCP_TIMER_HANDLE_INVALID
     \<or> tw_owner (tcp_wheel tm tc) (timers tc ! k) = Some (c_c_index tc, of_nat k)"

definition tcp_timers_ok :: "'f64 tcp_main_t \<Rightarrow> 'f64 tcp_connection_t \<Rightarrow> bool" where
  "tcp_timers_ok tm tc \<longleftrightarrow>
     length (timers tc) = TCP_N_TIMERS
     \<and> list_all (tcp_timer_slot_ok tm tc) [0..<TCP_N_TIMERS]"

text \<open>
  The concrete connection after its PERSIST timer (kind 2) has been started with an
  interval of 30: the timer is at handle 0 of worker 1's wheel.
\<close>

definition ex_main_persist :: "real tcp_main_t" where
  "ex_main_persist =
     tcp_wheel_update ex_main ex_conn
       [Some \<lparr>tw_pool_index = 0, tw_timer_id = 2, tw_interval = 30\<rparr>]"

definition ex_conn_persist :: "real tcp_connection_t" where
  "ex_conn_persist =
     ex_conn\<lparr>timers := [TCP_TIMER_HANDLE_INVALID, TCP_TIMER_HANDLE_INVALID, 0,
                          TCP_TIMER_HANDLE_INVALID, TCP_TIMER_HANDLE_INVALID]\<rparr>"

text \<open>
  The converse direction: every running timer of the worker's wheel that the connection
  owns is the one its kind's slot refers to, so the wheel runs at most one timer per
  connection and kind. References are slot indices below the invalid sentinel.
\<close>

definition tcp_timers_unique :: "'f64 tcp_main_t \<Rightarrow> 'f64 tcp_connection_t \<Rightarrow> bool" where
  "tcp_timers_unique tm tc \<longleftrightarrow>
     length (tcp_wheel tm tc) \<le> unat TCP_TIMER_HANDLE_INVALID
     \<and> list_all
          (\<lambda>i. case tcp_wheel tm tc ! i of
                 None \<Rightarrow> True
               | Some t \<Rightarrow>
                   tw_pool_index t = c_c_index tc \<longrightarrow>
                     unat (tw_timer_id t) < length (timers tc)
                     \<and> timers tc ! unat (tw_timer_id t) = of_nat i)
          [0..<length (tcp_wheel tm tc)]"

text \<open>
  The references of the running timers of the worker's wheel that the connection owns
  for the kind with value \<open>k\<close>, in ascending order.
\<close>

definition tcp_running_timers ::
    "'f64 tcp_main_t \<Rightarrow> 'f64 tcp_connection_t \<Rightarrow> nat \<Rightarrow> nat list" where
  "tcp_running_timers tm tc k =
     filter
       (\<lambda>i. case tcp_wheel tm tc ! i of
              None \<Rightarrow> False
            | Some t \<Rightarrow> tw_pool_index t = c_c_index tc \<and> tw_timer_id t = of_nat k)
       [0..<length (tcp_wheel tm tc)]"

section \<open>Facts about words\<close>

lemma pow2_31: "(2::int) ^ 31 = 2147483648"
  by simp

lemma sint_u32_bounds: "- 2147483648 \<le> sint (d::u32) \<and> sint d < 2147483648"
  using sint_ge [of d] sint_lt [of d] by simp

lemma sint_u32_min: "sint (d::u32) = - 2147483648 \<Longrightarrow> d = 0x80000000"
proof -
  assume a: "sint d = - 2147483648"
  have "sint (0x80000000 :: u32) = - 2147483648" by simp
  with a have "sint d = sint (0x80000000 :: u32)" by simp
  then show ?thesis by (rule signed_word_eqI)
qed

lemma sint_u32_zero: "sint (d::u32) = 0 \<Longrightarrow> d = 0"
proof -
  assume "sint d = 0"
  then have "sint d = sint (0 :: u32)" by simp
  then show ?thesis by (rule signed_word_eqI)
qed

lemma sint_u32_neg: "d \<noteq> 0x80000000 \<Longrightarrow> sint (- d) = - sint (d::u32)"
proof -
  assume a: "d \<noteq> 0x80000000"
  have "sint d \<noteq> - 2147483648" using a sint_u32_min by blast
  with sint_u32_bounds [of d] have b: "- (2 ^ 31) \<le> - sint d \<and> - sint d < 2 ^ 31" by simp
  have "sint (- d) = signed_take_bit 31 (- sint d)" by (simp add: sint_word_minus)
  also have "\<dots> = - sint d" using b by (simp add: signed_take_bit_int_eq_self)
  finally show ?thesis .
qed

lemma sint_u32_swap: "s1 - s2 \<noteq> 0x80000000 \<Longrightarrow> sint (s2 - s1) = - sint (s1 - s2 :: u32)"
proof -
  assume "s1 - s2 \<noteq> 0x80000000"
  then have "sint (- (s1 - s2)) = - sint (s1 - s2)" by (rule sint_u32_neg)
  moreover have "- (s1 - s2) = s2 - s1" by simp
  ultimately show ?thesis by simp
qed

lemma sint_u32_small: "uint (x::u32) < 2147483648 \<Longrightarrow> sint x = uint x"
proof -
  assume a: "uint x < 2147483648"
  have "sint x = signed_take_bit 31 (uint x)" by (simp only: sint_uint) simp
  also have "\<dots> = uint x"
  proof (rule signed_take_bit_int_eq_self)
    have "0 \<le> uint x" by (rule uint_ge_0)
    then show "- (2 ^ 31) \<le> uint x" unfolding pow2_31 by linarith
    show "uint x < 2 ^ 31" using a by simp
  qed
  finally show ?thesis .
qed

lemma sint_u32_diff_small:
  assumes "uint (x::u32) < 2147483648" and "uint (y::u32) < 2147483648"
  shows "sint (x - y) = uint x - uint y"
proof -
  have x0: "0 \<le> uint x" and y0: "0 \<le> uint y" by (rule uint_ge_0)+
  have "sint (x - y) = signed_take_bit 31 (sint x - sint y)"
    by (simp only: sint_word_diff) simp
  also have "\<dots> = signed_take_bit 31 (uint x - uint y)"
    using assms by (simp only: sint_u32_small)
  also have "\<dots> = uint x - uint y"
  proof (rule signed_take_bit_int_eq_self)
    show "- (2 ^ 31) \<le> uint x - uint y" using assms x0 y0 unfolding pow2_31 by linarith
    show "uint x - uint y < 2 ^ 31" using assms x0 y0 unfolding pow2_31 by linarith
  qed
  finally show ?thesis .
qed

lemma sint_u32_of_int:
  assumes "- 2147483648 \<le> k" and "k < 2147483648"
  shows "sint (word_of_int k :: u32) = k"
proof -
  have "sint (word_of_int k :: u32) = signed_take_bit 31 k"
    by (simp only: sint_sbintrunc') simp
  also have "\<dots> = k" using assms by (intro signed_take_bit_int_eq_self) simp_all
  finally show ?thesis .
qed

lemma uint_sint_nonneg: "0 \<le> sint (q::u32) \<Longrightarrow> uint q = sint q"
proof -
  assume a: "0 \<le> sint q"
  have "uint q = take_bit LENGTH(32) (sint q)" by (rule uint_sint)
  also have "\<dots> = sint q"
  proof (rule take_bit_int_eq_self)
    show "0 \<le> sint q" by (rule a)
    have "sint q < 2 ^ (LENGTH(32) - 1)" by (rule sint_lt)
    then show "sint q < 2 ^ LENGTH(32)" by simp
  qed
  finally show ?thesis .
qed

lemma u32_sub_div_mult: "(n::u32) - n div b * b = n mod b"
proof -
  have "n div b * b + n mod b = n" by (rule word_mod_div_equality)
  then have "n - n div b * b = (n div b * b + n mod b) - n div b * b" by simp
  then show ?thesis by simp
qed

lemma unat_u16_lt: "unat (x::u16) < 65536"
proof -
  have "unat x < 2 ^ LENGTH(16)" by (rule unsigned_less)
  then show ?thesis by simp
qed

lemma unat_u8_lt: "unat (x::u8) < 256"
proof -
  have "unat x < 2 ^ LENGTH(8)" by (rule unsigned_less)
  then show ?thesis by simp
qed

lemma unat_ucast_u16_u32: "unat (ucast (x::u16) :: u32) = unat x"
proof -
  have "unat (ucast x :: u32) = take_bit LENGTH(32) (unat x)" by (rule unsigned_ucast_eq)
  also have "\<dots> = unat x" using unat_u16_lt [of x] by (intro take_bit_nat_eq_self) simp
  finally show ?thesis .
qed

lemma unat_u16_prod: "unat (ucast (d::u16) * ucast (m::u16) :: u32) = unat d * unat m"
proof -
  have "unat d * unat m \<le> 65535 * 65535"
    using unat_u16_lt [of d] unat_u16_lt [of m] by (intro mult_le_mono) simp_all
  then have "unat (ucast d :: u32) * unat (ucast m :: u32) < 2 ^ LENGTH(32)"
    by (simp add: unat_ucast_u16_u32)
  then have "unat (ucast d * ucast m :: u32) = unat (ucast d :: u32) * unat (ucast m :: u32)"
    by (simp only: unat_mult_lem)
  then show ?thesis by (simp add: unat_ucast_u16_u32)
qed

lemma unat_u32_min: "unat (min a b) = min (unat a) (unat b)" for a b :: u32
  by (simp add: min_def word_le_nat_alt)

lemma clib_min_min: "clib_min x y = min x y"
  by (auto simp: clib_min_def min_def)

section \<open>The enumerations\<close>

lemma tcp_fsm_states:
  "map fst foreach_tcp_fsm_state =
    [TCP_STATE_CLOSED, TCP_STATE_LISTEN, TCP_STATE_SYN_SENT, TCP_STATE_SYN_RCVD,
     TCP_STATE_ESTABLISHED, TCP_STATE_CLOSE_WAIT, TCP_STATE_FIN_WAIT_1, TCP_STATE_LAST_ACK,
     TCP_STATE_CLOSING, TCP_STATE_FIN_WAIT_2, TCP_STATE_TIME_WAIT]"
  by (simp add: foreach_tcp_fsm_state_def)

lemma TCP_N_STATES_eq: "TCP_N_STATES = 11"
  by (simp add: TCP_N_STATES_def foreach_tcp_fsm_state_def)

lemma tcp_fsm_states_all: "set (map fst foreach_tcp_fsm_state) = UNIV"
proof -
  have "s \<in> set (map fst foreach_tcp_fsm_state)" for s
    by (cases s) (simp_all add: foreach_tcp_fsm_state_def)
  then show ?thesis by blast
qed

lemma tcp_fsm_states_distinct: "distinct (map fst foreach_tcp_fsm_state)"
  by (simp add: foreach_tcp_fsm_state_def)

lemma tcp_state_vals:
  "map tcp_state_val (map fst foreach_tcp_fsm_state) = [0..<TCP_N_STATES]"
  unfolding TCP_N_STATES_eq
  by (simp add: tcp_state_val_def enum_val_def foreach_tcp_fsm_state_def upt_rec)

lemma tcp_state_val_less: "tcp_state_val s < TCP_N_STATES"
  unfolding TCP_N_STATES_eq
  by (cases s) (simp_all add: tcp_state_val_def enum_val_def foreach_tcp_fsm_state_def)

lemma tcp_state_val_inj: "inj tcp_state_val"
proof (rule injI)
  fix x y assume "tcp_state_val x = tcp_state_val y"
  then show "x = y"
    by (cases x; cases y) (simp_all add: tcp_state_val_def enum_val_def foreach_tcp_fsm_state_def)
qed

lemma tcp_state_val_onto: "n < TCP_N_STATES \<Longrightarrow> \<exists>s. tcp_state_val s = n"
proof -
  assume n: "n < TCP_N_STATES"
  then have "map tcp_state_val (map fst foreach_tcp_fsm_state) ! n = n"
    unfolding tcp_state_vals by simp
  then show ?thesis using n
    by (metis TCP_N_STATES_def length_map nth_map)
qed

lemma dispatch_table_index_bij:
  "bij_betw dispatch_table_index UNIV
     ({..<fst dispatch_table_dims} \<times> {..<snd dispatch_table_dims})"
  unfolding bij_betw_def
proof
  show "inj dispatch_table_index"
  proof (rule injI)
    fix x y :: "tcp_state_t \<times> 6 word"
    assume "dispatch_table_index x = dispatch_table_index y"
    then have "tcp_state_val (fst x) = tcp_state_val (fst y)" "unat (snd x) = unat (snd y)"
      by (simp_all add: dispatch_table_index_def)
    then have "fst x = fst y" "snd x = snd y"
      using tcp_state_val_inj by (auto dest: injD simp: word_unat_eq_iff)
    then show "x = y" by (simp add: prod_eq_iff)
  qed
next
  show "range dispatch_table_index
          = {..<fst dispatch_table_dims} \<times> {..<snd dispatch_table_dims}"
  proof (rule set_eqI)
    fix p :: "nat \<times> nat"
    show "p \<in> range dispatch_table_index
            \<longleftrightarrow> p \<in> {..<fst dispatch_table_dims} \<times> {..<snd dispatch_table_dims}"
    proof
      assume "p \<in> range dispatch_table_index"
      then obtain sf where p: "p = dispatch_table_index sf" by blast
      have "unat (snd sf) < 2 ^ LENGTH(6)" by (rule unsigned_less)
      then have "unat (snd sf) < 64" by simp
      with p show "p \<in> {..<fst dispatch_table_dims} \<times> {..<snd dispatch_table_dims}"
        using tcp_state_val_less by (simp add: dispatch_table_index_def dispatch_table_dims_def)
    next
      assume "p \<in> {..<fst dispatch_table_dims} \<times> {..<snd dispatch_table_dims}"
      then have a: "fst p < TCP_N_STATES" and b: "snd p < 64"
        by (auto simp: dispatch_table_dims_def)
      from a obtain s where s: "tcp_state_val s = fst p" using tcp_state_val_onto by blast
      have "unat (of_nat (snd p) :: 6 word) = snd p" using b by (simp add: unat_of_nat)
      with s have "dispatch_table_index (s, of_nat (snd p)) = p"
        by (simp add: dispatch_table_index_def)
      then show "p \<in> range dispatch_table_index" by (metis rangeI)
    qed
  qed
qed

lemma dispatch_table_entries: "card (UNIV :: (tcp_state_t \<times> 6 word) set) = 704"
proof -
  have "card (UNIV :: (tcp_state_t \<times> 6 word) set)
          = card ({..<fst dispatch_table_dims} \<times> {..<snd dispatch_table_dims})"
    using dispatch_table_index_bij by (rule bij_betw_same_card)
  then show ?thesis by (simp add: dispatch_table_dims_def TCP_N_STATES_eq)
qed

text \<open>
  C6. The connection state machine has exactly 11 states, \<open>TCP_N_STATES = 11\<close>: CLOSED,
  LISTEN, SYN_SENT, SYN_RCVD, ESTABLISHED, CLOSE_WAIT, FIN_WAIT_1, LAST_ACK, CLOSING,
  FIN_WAIT_2, TIME_WAIT, in this order, pairwise distinct, with the values 0 to 10 and
  no state beside them. The dispatch table is declared with the dimensions
  \<open>TCP_N_STATES\<close> by 64; its positions are in one-to-one correspondence with the pairs
  of a state and a combination of six flag bits, 704 in all; and an entry is determined
  by its two fields, the next node and the error code.
\<close>

theorem tcp_fsm_states_and_dispatch_table:
  "map fst foreach_tcp_fsm_state =
     [TCP_STATE_CLOSED, TCP_STATE_LISTEN, TCP_STATE_SYN_SENT, TCP_STATE_SYN_RCVD,
      TCP_STATE_ESTABLISHED, TCP_STATE_CLOSE_WAIT, TCP_STATE_FIN_WAIT_1, TCP_STATE_LAST_ACK,
      TCP_STATE_CLOSING, TCP_STATE_FIN_WAIT_2, TCP_STATE_TIME_WAIT]
   \<and> TCP_N_STATES = 11
   \<and> distinct (map fst foreach_tcp_fsm_state)
   \<and> set (map fst foreach_tcp_fsm_state) = UNIV
   \<and> map tcp_state_val (map fst foreach_tcp_fsm_state) = [0..<TCP_N_STATES]
   \<and> dispatch_table_dims = (TCP_N_STATES, 64)
   \<and> bij_betw dispatch_table_index UNIV
        ({..<fst dispatch_table_dims} \<times> {..<snd dispatch_table_dims})
   \<and> card (UNIV :: (tcp_state_t \<times> 6 word) set) = TCP_N_STATES * 64
   \<and> TCP_N_STATES * 64 = 704
   \<and> (\<forall>e :: tcp_lookup_dispatch_t.
         e = \<lparr>dispatch_next = dispatch_next e, dispatch_error = dispatch_error e\<rparr>)"
proof (intro conjI)
  show "\<forall>e :: tcp_lookup_dispatch_t.
         e = \<lparr>dispatch_next = dispatch_next e, dispatch_error = dispatch_error e\<rparr>"
    by simp
  show n: "TCP_N_STATES * 64 = 704" by (simp add: TCP_N_STATES_eq)
  show "card (UNIV :: (tcp_state_t \<times> 6 word) set) = TCP_N_STATES * 64"
    by (simp only: dispatch_table_entries n)
  show "dispatch_table_dims = (TCP_N_STATES, 64)" by (rule dispatch_table_dims_def)
qed (rule tcp_fsm_states TCP_N_STATES_eq tcp_fsm_states_distinct tcp_fsm_states_all
       tcp_state_vals dispatch_table_index_bij)+

section \<open>The retransmission timeout floor\<close>

text \<open>
  C8. \<open>TCP_RTO_MIN\<close> is \<open>0.2 * THZ = 200\<close> ticks of 1 ms (\<open>THZ = 1000\<close>), that is 0.2 s.
  It is below the 1 s (\<open>THZ\<close> ticks) that RFC6298 recommends, and it is more than one
  timer tick: \<open>TCP_RTO_MIN * TCP_TICK = 0.2 > TCP_TIMER_TICK = 0.1\<close>.
\<close>

theorem TCP_RTO_MIN_value:
  "THZ = 1000
   \<and> TCP_RTO_MIN = 0.2 * real (unat THZ)
   \<and> TCP_RTO_MIN = 200
   \<and> TCP_RTO_MIN * TCP_TICK = 0.2
   \<and> TCP_RTO_MIN < real (unat THZ)
   \<and> TCP_RTO_MIN * TCP_TICK < 1
   \<and> TCP_TIMER_TICK = 0.1
   \<and> TCP_RTO_MIN * TCP_TICK > TCP_TIMER_TICK"
  by (simp add: TCP_RTO_MIN_def THZ_def TCP_TICK_def TCP_TIMER_TICK_def)

section \<open>Sequence numbers\<close>

lemma seq_lt_irrefl: "\<not> seq_lt s s"
  by (simp add: seq_lt_def)

lemma seq_lt_or_gt: "s1 \<noteq> s2 \<Longrightarrow> seq_lt s1 s2 \<or> seq_gt s1 s2"
proof -
  assume "s1 \<noteq> s2"
  then have "s1 - s2 \<noteq> 0" by simp
  then have "sint (s1 - s2) \<noteq> 0" using sint_u32_zero by blast
  then show ?thesis by (auto simp: seq_lt_def seq_gt_def)
qed

lemma seq_lt_not_gt: "\<not> (seq_lt s1 s2 \<and> seq_gt s1 s2)"
  by (simp add: seq_lt_def seq_gt_def)

lemma seq_lt_gt_swap: "s1 - s2 \<noteq> 0x80000000 \<Longrightarrow> seq_lt s1 s2 \<longleftrightarrow> seq_gt s2 s1"
  by (simp add: seq_lt_def seq_gt_def sint_u32_swap)

lemma seq_max_arg: "seq_max s1 s2 = s1 \<or> seq_max s1 s2 = s2"
  by (simp add: seq_max_def)

lemma seq_max_geq2: "seq_geq (seq_max s1 s2) s2"
  by (simp add: seq_max_def seq_geq_def seq_gt_def)

lemma seq_max_geq1: "s1 - s2 \<noteq> 0x80000000 \<Longrightarrow> seq_geq (seq_max s1 s2) s1"
  by (simp add: seq_max_def seq_geq_def seq_gt_def sint_u32_swap)

lemma seq_lt_window:
  assumes "uint (s1 - b) < 2147483648" and "uint (s2 - b) < 2147483648"
  shows "seq_lt s1 s2 \<longleftrightarrow> s1 - b < s2 - b"
proof -
  have d: "s1 - s2 = (s1 - b) - (s2 - b)" by simp
  have "sint ((s1 - b) - (s2 - b)) = uint (s1 - b) - uint (s2 - b)"
    using assms by (rule sint_u32_diff_small)
  then have "sint (s1 - s2) = uint (s1 - b) - uint (s2 - b)"
    by (simp only: d)
  then show ?thesis by (simp add: seq_lt_def word_less_alt)
qed

text \<open>
  Within a window shorter than \<open>2 ^ 31\<close> that starts at \<open>b\<close>, \<open>seq_lt\<close> is the order of
  the offsets from \<open>b\<close>, hence transitive there.
\<close>

lemma seq_lt_trans_window:
  assumes "uint (s1 - b) < 2147483648" and "uint (s2 - b) < 2147483648"
    and "uint (s3 - b) < 2147483648" and "seq_lt s1 s2" and "seq_lt s2 s3"
  shows "seq_lt s1 s3"
  using assms by (simp add: seq_lt_window [of _ b])

text \<open>
  C10, as the code has it. \<open>seq_lt s1 s1\<close> is false. For \<open>s1 \<noteq> s2\<close> whose difference
  is not \<open>2 ^ 31\<close>, exactly one of \<open>seq_lt s1 s2\<close> and \<open>seq_gt s1 s2\<close> holds, and
  \<open>seq_lt s1 s2\<close> holds iff \<open>seq_gt s2 s1\<close> does. \<open>seq_max s1 s2\<close> is one of its
  arguments and is \<open>seq_geq\<close> its second argument; it is \<open>seq_geq\<close> its first argument
  when the difference \<open>s1 - s2\<close> is not \<open>2 ^ 31\<close>. On a window shorter than \<open>2 ^ 31\<close>
  that starts at \<open>b\<close>, \<open>seq_lt\<close> is the strict order of the offsets from \<open>b\<close>.
\<close>

theorem seq_compare_strict_order:
  "\<not> seq_lt s1 s1
   \<and> (s1 \<noteq> s2 \<and> s1 - s2 \<noteq> 0x80000000 \<longrightarrow>
        (seq_lt s1 s2 \<or> seq_gt s1 s2) \<and> \<not> (seq_lt s1 s2 \<and> seq_gt s1 s2)
        \<and> (seq_lt s1 s2 \<longleftrightarrow> seq_gt s2 s1))
   \<and> (seq_max s1 s2 = s1 \<or> seq_max s1 s2 = s2)
   \<and> seq_geq (seq_max s1 s2) s2
   \<and> (s1 - s2 \<noteq> 0x80000000 \<longrightarrow> seq_geq (seq_max s1 s2) s1)
   \<and> (uint (s1 - b) < 2147483648 \<and> uint (s2 - b) < 2147483648 \<longrightarrow>
        (seq_lt s1 s2 \<longleftrightarrow> s1 - b < s2 - b))"
  using seq_lt_irrefl [of s1] seq_lt_or_gt [of s1 s2] seq_lt_not_gt [of s1 s2]
    seq_lt_gt_swap [of s1 s2] seq_max_arg [of s1 s2] seq_max_geq2 [of s1 s2]
    seq_max_geq1 [of s1 s2] seq_lt_window [of s1 b s2]
  by blast

theorem seq_compare_strict_order_witness:
  "(0xFFFFFF00 :: u32) \<noteq> 0x100
   \<and> (0xFFFFFF00 :: u32) - 0x100 \<noteq> 0x80000000
   \<and> uint ((0xFFFFFF00 :: u32) - 0xFFFFF000) < 2147483648
   \<and> uint ((0x100 :: u32) - 0xFFFFF000) < 2147483648
   \<and> seq_lt 0xFFFFFF00 0x100
   \<and> \<not> seq_gt 0xFFFFFF00 0x100
   \<and> seq_gt 0x100 0xFFFFFF00
   \<and> seq_max 0xFFFFFF00 0x100 = 0x100
   \<and> seq_geq (seq_max 0xFFFFFF00 0x100) 0xFFFFFF00
   \<and> seq_geq (seq_max 0xFFFFFF00 0x100) 0x100
   \<and> (0xFFFFFF00 :: u32) - 0xFFFFF000 < 0x100 - 0xFFFFF000"
  using seq_compare_strict_order [of "0xFFFFFF00" "0x100" "0xFFFFF000"]
  by (simp add: seq_max_def seq_gt_def)

text \<open>
  The claim C10 has \<open>seq_max s1 s2\<close> \<open>seq_geq\<close> both arguments for all \<open>s1\<close> and
  \<open>s2\<close>. For \<open>s1 = 2 ^ 31\<close> and \<open>s2 = 0\<close> the difference is \<open>2 ^ 31\<close> in both
  directions: \<open>seq_gt s1 s2\<close> is false, \<open>seq_max\<close> returns \<open>s2 = 0\<close>, and
  \<open>seq_geq 0 s1\<close> is false.
\<close>

theorem seq_max_geq_counterexample:
  "seq_max 0x80000000 0 = 0 \<and> \<not> seq_geq (seq_max 0x80000000 0) 0x80000000"
  by (simp add: seq_max_def seq_gt_def seq_geq_def)

section \<open>Congestion window accumulation\<close>

text \<open>
  C1. For a threshold \<open>thresh > 0\<close>, \<open>tcp_cwnd_accumulate tc thresh bytes\<close> returns, and
  adds \<open>bytes\<close> to \<open>cwnd_acc_bytes\<close> (in \<open>u32\<close>). If the sum \<open>acc\<close> reaches \<open>thresh\<close>,
  \<open>cwnd\<close> grows by \<open>inc * snd_mss\<close> with \<open>inc = acc div thresh\<close> and is then capped at
  \<open>tx_fifo_size\<close>, and the accumulator keeps \<open>acc mod thresh\<close>; otherwise only the
  accumulator changes. Quotient and remainder are those of the natural numbers; the
  capped window is at most \<open>tx_fifo_size\<close>; and when \<open>cwnd + inc * snd_mss\<close> does not
  exceed 32 bits, the new \<open>cwnd\<close> is the minimum of that sum and \<open>tx_fifo_size\<close> as
  natural numbers.
\<close>

theorem tcp_cwnd_accumulate_correct:
  assumes "thresh \<noteq> 0"
  shows "let acc = cwnd_acc_bytes tc + bytes;
             inc = acc div thresh;
             cwnd' = min (cwnd tc + inc * ucast (snd_mss tc)) (tx_fifo_size tc)
         in tcp_cwnd_accumulate tc thresh bytes =
              Inr (if thresh \<le> acc
                   then tc\<lparr>cwnd_acc_bytes := acc mod thresh, cwnd := cwnd'\<rparr>
                   else tc\<lparr>cwnd_acc_bytes := acc\<rparr>)
          \<and> unat acc = (unat (cwnd_acc_bytes tc) + unat bytes) mod 2 ^ 32
          \<and> unat inc = unat acc div unat thresh
          \<and> unat (acc mod thresh) = unat acc mod unat thresh
          \<and> cwnd' \<le> tx_fifo_size tc
          \<and> (unat (cwnd tc) + unat inc * unat (snd_mss tc) < 2 ^ 32 \<longrightarrow>
               unat cwnd' = min (unat (cwnd tc) + unat inc * unat (snd_mss tc))
                                (unat (tx_fifo_size tc)))"
proof -
  let ?acc = "cwnd_acc_bytes tc + bytes"
  let ?inc = "?acc div thresh"
  have r: "tcp_cwnd_accumulate tc thresh bytes =
     Inr (if thresh \<le> ?acc
          then tc\<lparr>cwnd_acc_bytes := ?acc mod thresh,
                  cwnd := min (cwnd tc + ?inc * ucast (snd_mss tc)) (tx_fifo_size tc)\<rparr>
          else tc\<lparr>cwnd_acc_bytes := ?acc\<rparr>)"
    using assms by (simp add: tcp_cwnd_accumulate_def Let_def clib_min_min u32_sub_div_mult)
  have acc: "unat ?acc = (unat (cwnd_acc_bytes tc) + unat bytes) mod 2 ^ 32"
    by (simp add: unat_word_ariths)
  have dv: "unat ?inc = unat ?acc div unat thresh" by (rule unat_div)
  have md: "unat (?acc mod thresh) = unat ?acc mod unat thresh" by (rule unat_mod)
  have cap: "min (cwnd tc + ?inc * ucast (snd_mss tc)) (tx_fifo_size tc) \<le> tx_fifo_size tc"
    by simp
  have nowrap: "unat (min (cwnd tc + ?inc * ucast (snd_mss tc)) (tx_fifo_size tc))
      = min (unat (cwnd tc) + unat ?inc * unat (snd_mss tc)) (unat (tx_fifo_size tc))"
    if h: "unat (cwnd tc) + unat ?inc * unat (snd_mss tc) < 2 ^ 32"
  proof -
    have m: "unat ?inc * unat (ucast (snd_mss tc) :: u32) < 2 ^ LENGTH(32)"
      using h by (simp add: unat_ucast_u16_u32)
    then have m': "unat (?inc * ucast (snd_mss tc)) = unat ?inc * unat (ucast (snd_mss tc) :: u32)"
      by (simp only: unat_mult_lem)
    have "unat (cwnd tc) + unat (?inc * ucast (snd_mss tc)) < 2 ^ LENGTH(32)"
      using h by (simp add: m' unat_ucast_u16_u32)
    then have "unat (cwnd tc + ?inc * ucast (snd_mss tc))
        = unat (cwnd tc) + unat (?inc * ucast (snd_mss tc))"
      by (simp only: unat_add_lem)
    then have "unat (cwnd tc + ?inc * ucast (snd_mss tc))
        = unat (cwnd tc) + unat ?inc * unat (snd_mss tc)"
      by (simp add: m' unat_ucast_u16_u32)
    then show ?thesis by (simp only: unat_u32_min)
  qed
  show ?thesis
    unfolding Let_def using r acc dv md cap nowrap by blast
qed

theorem tcp_cwnd_accumulate_witness:
  "(2000 :: u32) \<noteq> 0
   \<and> tcp_cwnd_accumulate ex_conn 2000 3500
       = Inr (ex_conn\<lparr>cwnd_acc_bytes := 500, cwnd := 12000\<rparr>)
   \<and> tcp_cwnd_accumulate ex_conn 2000 500
       = Inr (ex_conn\<lparr>cwnd_acc_bytes := 1500\<rparr>)
   \<and> tcp_cwnd_accumulate (ex_conn\<lparr>tx_fifo_size := 11000\<rparr>) 2000 3500
       = Inr (ex_conn\<lparr>tx_fifo_size := 11000, cwnd_acc_bytes := 500, cwnd := 11000\<rparr>)"
  using tcp_cwnd_accumulate_correct [of 2000 ex_conn 3500]
    tcp_cwnd_accumulate_correct [of 2000 ex_conn 500]
    tcp_cwnd_accumulate_correct [of 2000 "ex_conn\<lparr>tx_fifo_size := 11000\<rparr>" 3500]
  by (simp add: ex_conn_def Let_def)

text \<open>With a threshold of 0 the division traps.\<close>

lemma tcp_cwnd_accumulate_zero_thresh:
  "tcp_cwnd_accumulate tc 0 bytes = Inl DIVIDE_BY_ZERO"
  by (simp add: tcp_cwnd_accumulate_def Let_def)

section \<open>Bytes out and flight size\<close>

lemma flight_word_of_int:
  "(a::u32) - b + c - d = word_of_int (uint a - uint b + uint c - uint d)"
  by (simp flip: wi_homs add: word_of_int_uint)

lemma flight_size_sint:
  assumes "- 2147483648 \<le> flight_size_int tc" and "flight_size_int tc < 2147483648"
  shows "sint (snd_nxt tc - snd_una tc - tcp_bytes_out tc + snd_rxt_bytes tc - rxt_delivered tc)
           = flight_size_int tc"
proof -
  have "snd_nxt tc - snd_una tc - tcp_bytes_out tc + snd_rxt_bytes tc - rxt_delivered tc
          = word_of_int (flight_size_int tc)"
    unfolding flight_size_int_def by (rule flight_word_of_int)
  then show ?thesis using assms by (simp only: sint_u32_of_int)
qed

lemma tcp_bytes_out_eq:
  "tcp_bytes_out tc =
     (if sack_permitted (rcv_opts tc)
      then sacked_bytes (sack_sb tc) + lost_bytes (sack_sb tc)
      else min (ucast (rcv_dupacks tc) * ucast (snd_mss tc)) (snd_nxt tc - snd_una tc))"
  by (simp add: tcp_bytes_out_def tcp_opts_sack_permitted_def clib_min_min)

text \<open>
  C5. \<open>tcp_bytes_out\<close> is \<open>sacked_bytes + lost_bytes\<close> when SACK is permitted and the
  minimum of \<open>rcv_dupacks * snd_mss\<close> (a product that fits 32 bits) and
  \<open>snd_nxt - snd_una\<close> otherwise. Let \<open>q\<close> be
  \<open>(snd_nxt - snd_una) - tcp_bytes_out + snd_rxt_bytes - rxt_delivered\<close> as the code
  computes it, a 32-bit word read as an \<open>int\<close>. With assertions compiled in, a negative
  \<open>q\<close> makes \<open>tcp_flight_size\<close> fail its assertion instead of returning; a non-negative
  \<open>q\<close> is returned as it is. Without assertions \<open>q\<close> is returned in either case.
  Whenever the same formula over the integers lies in the range of \<open>int\<close>, \<open>q\<close> is
  that integer.
\<close>

theorem tcp_flight_size_correct:
  "tcp_bytes_out tc =
      (if sack_permitted (rcv_opts tc)
       then sacked_bytes (sack_sb tc) + lost_bytes (sack_sb tc)
       else min (ucast (rcv_dupacks tc) * ucast (snd_mss tc)) (snd_nxt tc - snd_una tc))
   \<and> unat (ucast (rcv_dupacks tc) * ucast (snd_mss tc) :: u32)
        = unat (rcv_dupacks tc) * unat (snd_mss tc)
   \<and> (let q = snd_nxt tc - snd_una tc - tcp_bytes_out tc + snd_rxt_bytes tc - rxt_delivered tc
      in (CLIB_ASSERT_ENABLE env \<and> sint q < 0 \<longrightarrow>
            tcp_flight_size env tc = Inl ASSERT_flight_size)
       \<and> (0 \<le> sint q \<longrightarrow> tcp_flight_size env tc = Inr q \<and> uint q = sint q)
       \<and> (\<not> CLIB_ASSERT_ENABLE env \<longrightarrow> tcp_flight_size env tc = Inr q)
       \<and> (- 2147483648 \<le> flight_size_int tc \<and> flight_size_int tc < 2147483648 \<longrightarrow>
            sint q = flight_size_int tc))"
proof -
  let ?q = "snd_nxt tc - snd_una tc - tcp_bytes_out tc + snd_rxt_bytes tc - rxt_delivered tc"
  have neg: "tcp_flight_size env tc = Inl ASSERT_flight_size"
    if "CLIB_ASSERT_ENABLE env \<and> sint ?q < 0"
    using that by (simp add: tcp_flight_size_def Let_def)
  have pos: "tcp_flight_size env tc = Inr ?q" if "0 \<le> sint ?q"
    using that by (simp add: tcp_flight_size_def Let_def)
  have val: "uint ?q = sint ?q" if "0 \<le> sint ?q"
    using that by (rule uint_sint_nonneg)
  have rel: "tcp_flight_size env tc = Inr ?q" if "\<not> CLIB_ASSERT_ENABLE env"
    using that by (simp add: tcp_flight_size_def Let_def)
  have int: "sint ?q = flight_size_int tc"
    if "- 2147483648 \<le> flight_size_int tc \<and> flight_size_int tc < 2147483648"
    using that by (simp only: flight_size_sint)
  show ?thesis
    unfolding Let_def
    using tcp_bytes_out_eq [of tc] unat_u16_prod [of "rcv_dupacks tc" "snd_mss tc"]
      neg pos val rel int
    by blast
qed

theorem tcp_flight_size_witness:
  "CLIB_ASSERT_ENABLE ex_env
   \<and> flight_size_int ex_conn = 2500
   \<and> tcp_flight_size ex_env ex_conn = Inr 2500
   \<and> flight_size_int (ex_conn\<lparr>rxt_delivered := 3000\<rparr>) = - 500
   \<and> tcp_flight_size ex_env (ex_conn\<lparr>rxt_delivered := 3000\<rparr>) = Inl ASSERT_flight_size
   \<and> tcp_flight_size (ex_env\<lparr>CLIB_ASSERT_ENABLE := False\<rparr>) (ex_conn\<lparr>rxt_delivered := 3000\<rparr>)
       = Inr 4294966796
   \<and> tcp_bytes_out (ex_conn\<lparr>rcv_opts := \<lparr>sack_permitted = False\<rparr>, rcv_dupacks := 3\<rparr>) = 3000"
  using tcp_flight_size_correct [of ex_conn ex_env]
    tcp_flight_size_correct [of "ex_conn\<lparr>rxt_delivered := 3000\<rparr>" ex_env]
    tcp_flight_size_correct [of "ex_conn\<lparr>rxt_delivered := 3000\<rparr>"
      "ex_env\<lparr>CLIB_ASSERT_ENABLE := False\<rparr>"]
    tcp_flight_size_correct
      [of "ex_conn\<lparr>rcv_opts := \<lparr>sack_permitted = False\<rparr>, rcv_dupacks := 3\<rparr>" ex_env]
  by (simp add: ex_conn_def ex_env_def Let_def flight_size_int_def)

text \<open>
  Outside the range of \<open>int\<close> the assertion reads the wrapped value: an integer
  quantity of \<open>2 ^ 31\<close> fails the assertion although it is not negative.
\<close>

lemma tcp_flight_size_wraps:
  "flight_size_int (ex_conn\<lparr>snd_una := 0, snd_nxt := 0x80000000,
       sack_sb := \<lparr>sacked_bytes = 0, lost_bytes = 0\<rparr>\<rparr>) = 2147483648
   \<and> tcp_flight_size ex_env (ex_conn\<lparr>snd_una := 0, snd_nxt := 0x80000000,
       sack_sb := \<lparr>sacked_bytes = 0, lost_bytes = 0\<rparr>\<rparr>) = Inl ASSERT_flight_size"
  by (simp add: tcp_flight_size_def tcp_bytes_out_def tcp_opts_sack_permitted_def
      flight_size_int_def ex_conn_def ex_env_def Let_def)

section \<open>Connection lookup\<close>

lemma vec_pool_is_free_index:
  "pool_is_free_index vec_pool_macros P I \<longleftrightarrow>
     \<not> (\<exists>es c. P = Some es \<and> unat I < length es \<and> es ! unat I = Some c)"
  by (auto simp: vec_pool_macros_def split: option.splits)

lemma vec_pool_elt_at_index: "pool_elt_at_index vec_pool_macros P I = unat I"
  by (simp add: vec_pool_macros_def)

text \<open>
  C9. Whatever the pool macros are, for a thread index within the vector of pools:
  \<open>tcp_connection_get\<close> returns the null pointer when \<open>pool_is_free_index\<close> says the
  index is free in the thread's pool, and the pointer of \<open>pool_elt_at_index\<close>
  otherwise; \<open>tcp_connection_get_if_valid\<close> returns null also when the thread's pool
  pointer is null, whatever \<open>pool_is_free_index\<close> says of a null pool, and the element's
  pointer only for a pool that exists and an index that is not free;
  \<open>tcp_half_open_connection_get\<close> returns null when the index is free in the half-open
  pool and the element's pointer otherwise. For pools that are vectors of slots, a
  result of \<open>tcp_connection_get\<close> is not null exactly when the slot at the index
  exists and is allocated, and it then points to that slot: never to a freed one.
\<close>

theorem tcp_connection_get_null:
  "(unat thread_index < length (connections tm) \<longrightarrow>
      (pool_is_free_index M (connections tm ! unat thread_index) conn_index \<longrightarrow>
           tcp_connection_get M tm conn_index thread_index = Inr None
         \<and> tcp_connection_get_if_valid M tm conn_index thread_index = Inr None)
    \<and> (connections tm ! unat thread_index = None \<longrightarrow>
           tcp_connection_get_if_valid M tm conn_index thread_index = Inr None)
    \<and> (\<not> pool_is_free_index M (connections tm ! unat thread_index) conn_index \<longrightarrow>
           tcp_connection_get M tm conn_index thread_index
             = Inr (Some (pool_elt_at_index M (connections tm ! unat thread_index) conn_index)))
    \<and> (connections tm ! unat thread_index \<noteq> None
        \<and> \<not> pool_is_free_index M (connections tm ! unat thread_index) conn_index \<longrightarrow>
           tcp_connection_get_if_valid M tm conn_index thread_index
             = Inr (Some (pool_elt_at_index M (connections tm ! unat thread_index) conn_index)))
    \<and> (\<forall>p. tcp_connection_get vec_pool_macros tm conn_index thread_index = Inr (Some p) \<longleftrightarrow>
           (\<exists>es c. connections tm ! unat thread_index = Some es \<and> unat conn_index < length es
                 \<and> es ! unat conn_index = Some c \<and> p = unat conn_index)))
   \<and> (pool_is_free_index M (half_open_connections tm) conn_index \<longrightarrow>
         tcp_half_open_connection_get M tm conn_index = None)
   \<and> (\<not> pool_is_free_index M (half_open_connections tm) conn_index \<longrightarrow>
         tcp_half_open_connection_get M tm conn_index
           = Some (pool_elt_at_index M (half_open_connections tm) conn_index))
   \<and> (\<forall>p. tcp_half_open_connection_get vec_pool_macros tm conn_index = Some p \<longleftrightarrow>
         (\<exists>es c. half_open_connections tm = Some es \<and> unat conn_index < length es
               \<and> es ! unat conn_index = Some c \<and> p = unat conn_index))"
proof (intro conjI impI allI)
  assume "unat thread_index < length (connections tm)"
    and "pool_is_free_index M (connections tm ! unat thread_index) conn_index"
  then show "tcp_connection_get M tm conn_index thread_index = Inr None"
    and "tcp_connection_get_if_valid M tm conn_index thread_index = Inr None"
    by (simp_all add: tcp_connection_get_def tcp_connection_get_if_valid_def)
next
  assume "unat thread_index < length (connections tm)"
    and "connections tm ! unat thread_index = None"
  then show "tcp_connection_get_if_valid M tm conn_index thread_index = Inr None"
    by (simp add: tcp_connection_get_if_valid_def)
next
  assume "unat thread_index < length (connections tm)"
    and "\<not> pool_is_free_index M (connections tm ! unat thread_index) conn_index"
  then show "tcp_connection_get M tm conn_index thread_index
             = Inr (Some (pool_elt_at_index M (connections tm ! unat thread_index) conn_index))"
    by (simp add: tcp_connection_get_def)
next
  assume "unat thread_index < length (connections tm)"
    and "connections tm ! unat thread_index \<noteq> None
        \<and> \<not> pool_is_free_index M (connections tm ! unat thread_index) conn_index"
  then show "tcp_connection_get_if_valid M tm conn_index thread_index
             = Inr (Some (pool_elt_at_index M (connections tm ! unat thread_index) conn_index))"
    by (simp add: tcp_connection_get_if_valid_def)
next
  fix p
  assume "unat thread_index < length (connections tm)"
  then show "tcp_connection_get vec_pool_macros tm conn_index thread_index = Inr (Some p) \<longleftrightarrow>
           (\<exists>es c. connections tm ! unat thread_index = Some es \<and> unat conn_index < length es
                 \<and> es ! unat conn_index = Some c \<and> p = unat conn_index)"
    by (auto simp: tcp_connection_get_def vec_pool_is_free_index vec_pool_elt_at_index)
next
  assume "pool_is_free_index M (half_open_connections tm) conn_index"
  then show "tcp_half_open_connection_get M tm conn_index = None"
    by (simp add: tcp_half_open_connection_get_def)
next
  assume "\<not> pool_is_free_index M (half_open_connections tm) conn_index"
  then show "tcp_half_open_connection_get M tm conn_index
           = Some (pool_elt_at_index M (half_open_connections tm) conn_index)"
    by (simp add: tcp_half_open_connection_get_def)
next
  fix p
  show "tcp_half_open_connection_get vec_pool_macros tm conn_index = Some p \<longleftrightarrow>
         (\<exists>es c. half_open_connections tm = Some es \<and> unat conn_index < length es
               \<and> es ! unat conn_index = Some c \<and> p = unat conn_index)"
    by (auto simp: tcp_half_open_connection_get_def vec_pool_is_free_index
        vec_pool_elt_at_index)
qed

theorem tcp_connection_get_null_witness:
  "unat (1 :: u32) < length (connections ex_main)
   \<and> pool_is_free_index vec_pool_macros (connections ex_main ! unat (1 :: u32)) 1
   \<and> tcp_connection_get vec_pool_macros ex_main 1 1 = Inr None
   \<and> pool_is_free_index vec_pool_macros (connections ex_main ! unat (1 :: u32)) 2
   \<and> tcp_connection_get vec_pool_macros ex_main 2 1 = Inr None
   \<and> tcp_connection_get_if_valid vec_pool_macros ex_main 2 1 = Inr None
   \<and> \<not> pool_is_free_index vec_pool_macros (connections ex_main ! unat (1 :: u32)) 0
   \<and> tcp_connection_get vec_pool_macros ex_main 0 1 = Inr (Some 0)
   \<and> tcp_connection_get_if_valid vec_pool_macros ex_main 0 1 = Inr (Some 0)
   \<and> unat (0 :: u32) < length (connections ex_main)
   \<and> connections ex_main ! unat (0 :: u32) = None
   \<and> tcp_connection_get_if_valid vec_pool_macros ex_main 0 0 = Inr None
   \<and> pool_is_free_index vec_pool_macros (half_open_connections ex_main) 0
   \<and> tcp_half_open_connection_get vec_pool_macros ex_main 0 = None
   \<and> \<not> pool_is_free_index vec_pool_macros (half_open_connections ex_main) 1
   \<and> tcp_half_open_connection_get vec_pool_macros ex_main 1 = Some 1"
  using tcp_connection_get_null [of 1 ex_main vec_pool_macros 1]
    tcp_connection_get_null [of 1 ex_main vec_pool_macros 2]
    tcp_connection_get_null [of 1 ex_main vec_pool_macros 0]
    tcp_connection_get_null [of 0 ex_main vec_pool_macros 0]
    tcp_connection_get_null [of 0 ex_main vec_pool_macros 1]
  by (simp add: vec_pool_macros_def ex_main_def)

text \<open>
  The null test of \<open>tcp_connection_get_if_valid\<close> decides the result where
  \<open>pool_is_free_index\<close> would not call a null pool free, and a thread index beyond the
  vector of pools is not looked up.
\<close>

lemma tcp_connection_get_if_valid_null_pool:
  "tcp_connection_get_if_valid
     (vec_pool_macros\<lparr>pool_is_free_index := \<lambda>P I. False\<rparr>) ex_main 0 0 = Inr None
   \<and> tcp_connection_get
     (vec_pool_macros\<lparr>pool_is_free_index := \<lambda>P I. False\<rparr>) ex_main 0 0 = Inr (Some 0)
   \<and> tcp_connection_get vec_pool_macros ex_main 0 2 = Inl INDEX_OUT_OF_BOUNDS"
  by (simp add: tcp_connection_get_if_valid_def tcp_connection_get_def vec_pool_macros_def
      ex_main_def)

section \<open>Pacing rate\<close>

text \<open>
  C4, as the code has it. When the connection's algorithm has no \<open>get_pacing_rate\<close>
  hook, \<open>tcp_cc_get_pacing_rate\<close> returns the congestion window divided by the smaller
  of \<open>srtt * TCP_TICK\<close> (the smoothed RTT in seconds) and \<open>mrtt_us\<close>, converted to
  \<open>u64\<close>: for any floating-point operations, the divisor is the product when the
  product is less than \<open>mrtt_us\<close> and \<open>mrtt_us\<close> otherwise; with exact arithmetic and
  a positive divisor the result is the integer part of
  \<open>cwnd / min (srtt * TCP_TICK) mrtt_us\<close>. When the hook is there, its result on the
  connection is returned.
\<close>

theorem tcp_cc_get_pacing_rate_divisor:
  "(get_pacing_rate (cc_algos tm (cc_algo tc)) = None \<longrightarrow>
      tcp_cc_get_pacing_rate F tm tc =
        f64_to_u64 F
          (f64_div F (f64_of_u32 F (cwnd tc))
             (if f64_less F (f64_mul F (f64_of_u32 F (srtt tc)) (f64_of_literal F TCP_TICK))
                            (mrtt_us tc)
              then f64_mul F (f64_of_u32 F (srtt tc)) (f64_of_literal F TCP_TICK)
              else mrtt_us tc)))
   \<and> (\<forall>hook. get_pacing_rate (cc_algos tm (cc_algo tc)) = Some hook \<longrightarrow>
         tcp_cc_get_pacing_rate F tm tc = hook tc)
   \<and> (get_pacing_rate (cc_algos tmr (cc_algo tcr)) = None
       \<and> 0 < min (real (unat (srtt tcr)) * TCP_TICK) (mrtt_us tcr) \<longrightarrow>
         tcp_cc_get_pacing_rate ex_f64_ops tmr tcr =
           word_of_int \<lfloor>real (unat (cwnd tcr))
                          / min (real (unat (srtt tcr)) * TCP_TICK) (mrtt_us tcr)\<rfloor>)"
proof (intro conjI impI allI)
  assume "get_pacing_rate (cc_algos tm (cc_algo tc)) = None"
  then show "tcp_cc_get_pacing_rate F tm tc =
        f64_to_u64 F
          (f64_div F (f64_of_u32 F (cwnd tc))
             (if f64_less F (f64_mul F (f64_of_u32 F (srtt tc)) (f64_of_literal F TCP_TICK))
                            (mrtt_us tc)
              then f64_mul F (f64_of_u32 F (srtt tc)) (f64_of_literal F TCP_TICK)
              else mrtt_us tc))"
    by (simp add: tcp_cc_get_pacing_rate_def clib_min_f64_def Let_def)
next
  fix hook
  assume "get_pacing_rate (cc_algos tm (cc_algo tc)) = Some hook"
  then show "tcp_cc_get_pacing_rate F tm tc = hook tc"
    by (simp add: tcp_cc_get_pacing_rate_def)
next
  assume "get_pacing_rate (cc_algos tmr (cc_algo tcr)) = None
       \<and> 0 < min (real (unat (srtt tcr)) * TCP_TICK) (mrtt_us tcr)"
  then have n: "get_pacing_rate (cc_algos tmr (cc_algo tcr)) = None" by simp
  have m: "(if a < b then a else b) = min a b" for a b :: real
    by (simp add: min_def)
  show "tcp_cc_get_pacing_rate ex_f64_ops tmr tcr =
           word_of_int \<lfloor>real (unat (cwnd tcr))
                          / min (real (unat (srtt tcr)) * TCP_TICK) (mrtt_us tcr)\<rfloor>"
    using n by (simp add: tcp_cc_get_pacing_rate_def clib_min_f64_def ex_f64_ops_def Let_def m)
qed

theorem tcp_cc_get_pacing_rate_divisor_witness:
  "get_pacing_rate (cc_algos ex_main (cc_algo ex_conn)) = None
   \<and> min (real (unat (srtt ex_conn)) * TCP_TICK) (mrtt_us ex_conn) = 0.05
   \<and> tcp_cc_get_pacing_rate ex_f64_ops ex_main ex_conn = 200000
   \<and> min (real (unat (srtt ex_conn)) * TCP_TICK) (mrtt_us (ex_conn\<lparr>mrtt_us := 0.5\<rparr>)) = 0.1
   \<and> tcp_cc_get_pacing_rate ex_f64_ops ex_main (ex_conn\<lparr>mrtt_us := 0.5\<rparr>) = 100000
   \<and> get_pacing_rate (cc_algos ex_main (cc_algo (ex_conn\<lparr>cc_algo := 1\<rparr>))) \<noteq> None
   \<and> tcp_cc_get_pacing_rate ex_f64_ops ex_main (ex_conn\<lparr>cc_algo := 1\<rparr>) = 42"
  using tcp_cc_get_pacing_rate_divisor
      [where tm = ex_main and tc = ex_conn and F = ex_f64_ops
         and tmr = ex_main and tcr = ex_conn]
    tcp_cc_get_pacing_rate_divisor
      [where tm = ex_main and tc = "ex_conn\<lparr>cc_algo := 1\<rparr>" and F = ex_f64_ops
         and tmr = ex_main and tcr = "ex_conn\<lparr>mrtt_us := 0.5\<rparr>"]
  by (simp add: ex_main_def ex_conn_def ex_f64_ops_def TCP_TICK_def)

text \<open>
  The claim C4 has the default divide the congestion window by the smoothed RTT. For
  the connection with \<open>cwnd = 10000\<close>, \<open>srtt = 100\<close> ticks (0.1 s) and
  \<open>mrtt_us = 0.05\<close>, the code divides by \<open>mrtt_us\<close>, the smaller of the two, and
  returns 200000, where the window divided by the smoothed RTT is 100000 per second
  (100 per tick).
\<close>

theorem tcp_cc_get_pacing_rate_counterexample:
  "get_pacing_rate (cc_algos ex_main (cc_algo ex_conn)) = None
   \<and> cwnd ex_conn = 10000 \<and> srtt ex_conn = 100 \<and> mrtt_us ex_conn = 0.05
   \<and> tcp_cc_get_pacing_rate ex_f64_ops ex_main ex_conn = 200000
   \<and> f64_to_u64 ex_f64_ops
        (f64_div ex_f64_ops (f64_of_u32 ex_f64_ops (cwnd ex_conn))
           (f64_mul ex_f64_ops (f64_of_u32 ex_f64_ops (srtt ex_conn))
              (f64_of_literal ex_f64_ops TCP_TICK))) = 100000
   \<and> f64_to_u64 ex_f64_ops
        (f64_div ex_f64_ops (f64_of_u32 ex_f64_ops (cwnd ex_conn))
           (f64_of_u32 ex_f64_ops (srtt ex_conn))) = 100"
  by (simp add: tcp_cc_get_pacing_rate_def clib_min_f64_def ex_f64_ops_def ex_main_def
      ex_conn_def TCP_TICK_def Let_def)

section \<open>The timer wheel\<close>

lemma TCP_N_TIMERS_eq: "TCP_N_TIMERS = 5"
  by (simp add: TCP_N_TIMERS_def foreach_tcp_timer_def)

lemma unat_TCP_TIMER_HANDLE_INVALID: "unat TCP_TIMER_HANDLE_INVALID = 4294967295"
  by (simp add: TCP_TIMER_HANDLE_INVALID_def unsigned_minus_1_eq_mask mask_eq_exp_minus_1)

lemma TCP_TIMER_HANDLE_INVALID_neq_0:
  "TCP_TIMER_HANDLE_INVALID \<noteq> 0" "0 \<noteq> TCP_TIMER_HANDLE_INVALID"
  by (simp_all add: TCP_TIMER_HANDLE_INVALID_def)

lemma tw_first_free_le: "tw_first_free w \<le> length w"
  by (induction w rule: tw_first_free.induct) simp_all

lemma tw_first_free_None: "tw_first_free w < length w \<Longrightarrow> w ! tw_first_free w = None"
  by (induction w rule: tw_first_free.induct) simp_all

lemma tw_timer_start_handle:
  assumes "tw_timer_start w ci timer_id interval = Some (w', handle)"
  shows "unat handle = tw_first_free w" and "handle \<noteq> TCP_TIMER_HANDLE_INVALID"
proof -
  from assms have lt: "tw_first_free w < unat TCP_TIMER_HANDLE_INVALID"
    and h: "handle = of_nat (tw_first_free w)"
    by (auto simp: tw_timer_start_def Let_def split: if_splits)
  from lt have "tw_first_free w < 2 ^ LENGTH(32)"
    by (simp add: unat_TCP_TIMER_HANDLE_INVALID)
  then have "unat (of_nat (tw_first_free w) :: u32) = tw_first_free w"
    by (simp add: unat_of_nat)
  with h show u: "unat handle = tw_first_free w" by simp
  from u lt show "handle \<noteq> TCP_TIMER_HANDLE_INVALID" by auto
qed

lemma tw_timer_start_owner:
  assumes "tw_timer_start w ci timer_id interval = Some (w', handle)"
  shows "tw_owner w' handle = Some (ci, timer_id)"
proof -
  have u: "unat handle = tw_first_free w" using assms by (rule tw_timer_start_handle)
  from assms have w': "w' = (if tw_first_free w < length w
      then w[tw_first_free w := Some \<lparr>tw_pool_index = ci, tw_timer_id = timer_id,
                                        tw_interval = interval\<rparr>]
      else w @ [Some \<lparr>tw_pool_index = ci, tw_timer_id = timer_id, tw_interval = interval\<rparr>])"
    by (auto simp: tw_timer_start_def Let_def split: if_splits)
  show ?thesis
  proof (cases "tw_first_free w < length w")
    case True
    then show ?thesis using w' u by (simp add: tw_owner_def)
  next
    case False
    then have "tw_first_free w = length w" using tw_first_free_le [of w] by simp
    then show ?thesis using w' u by (simp add: tw_owner_def)
  qed
qed

lemma tw_timer_start_other:
  assumes "tw_timer_start w ci timer_id interval = Some (w', handle)"
    and "tw_owner w h = Some o'"
  shows "tw_owner w' h = Some o'"
proof -
  from assms(2) have lt: "unat h < length w" and so: "w ! unat h \<noteq> None"
    by (auto simp: tw_owner_def split: if_splits)
  have ne: "unat h \<noteq> tw_first_free w"
  proof
    assume e: "unat h = tw_first_free w"
    then have "w ! unat h = None" using lt tw_first_free_None [of w] by simp
    with so show False by simp
  qed
  from assms(1) have w': "w' = (if tw_first_free w < length w
      then w[tw_first_free w := Some \<lparr>tw_pool_index = ci, tw_timer_id = timer_id,
                                        tw_interval = interval\<rparr>]
      else w @ [Some \<lparr>tw_pool_index = ci, tw_timer_id = timer_id, tw_interval = interval\<rparr>])"
    by (auto simp: tw_timer_start_def Let_def split: if_splits)
  show ?thesis
    using assms(2) lt ne unfolding w' by (auto simp: tw_owner_def nth_append)
qed

lemma tw_timer_stop_other:
  assumes "tw_owner w h = Some o'" and "unat h \<noteq> unat handle"
  shows "tw_owner (tw_timer_stop w handle) h = Some o'"
  using assms by (auto simp: tw_owner_def tw_timer_stop_def split: if_splits)

lemma tw_timer_stop_owner: "tw_owner (tw_timer_stop w handle) handle = None"
  by (simp add: tw_owner_def tw_timer_stop_def)

lemma tw_timer_update_owner:
  "tw_owner (tw_timer_update w handle interval) h = tw_owner w h"
  by (cases "unat h = unat handle")
     (auto simp: tw_owner_def tw_timer_update_def split: option.splits)

section \<open>Timers\<close>

lemma tcp_wheel_of_update [simp]:
  "c_thread_index tc' = c_thread_index tc \<Longrightarrow> tcp_wheel (tcp_wheel_update tm tc w) tc' = w"
  by (simp add: tcp_wheel_def tcp_wheel_update_def)

lemma u8_of_nat_unat_eq: "of_nat k = (timer_id :: u8) \<longleftrightarrow> k = unat timer_id" if "k < 256"
proof
  assume "of_nat k = timer_id"
  then have "unat timer_id = unat (of_nat k :: u8)" by simp
  also have "\<dots> = k" using that by (simp add: unat_of_nat)
  finally show "k = unat timer_id" by simp
next
  assume "k = unat timer_id"
  then show "of_nat k = timer_id" by simp
qed

lemma tcp_timers_ok_iff:
  "tcp_timers_ok tm tc \<longleftrightarrow>
     length (timers tc) = TCP_N_TIMERS \<and> (\<forall>k<TCP_N_TIMERS. tcp_timer_slot_ok tm tc k)"
  by (auto simp: tcp_timers_ok_def list_all_iff)

text \<open>What a successful start does to the slots, whoever calls it.\<close>

lemma tcp_timer_start_ok:
  assumes ok: "tcp_timers_ok tm tc"
    and k: "unat timer_id < length (timers tc)"
    and st: "tw_timer_start (tcp_wheel tm tc) (c_c_index tc) timer_id interval = Some (w, handle)"
  shows "tcp_timers_ok (tcp_wheel_update tm tc w)
           (tc\<lparr>timers := (timers tc)[unat timer_id := handle]\<rparr>)"
  unfolding tcp_timers_ok_iff
proof (intro conjI allI impI)
  show "length (timers (tc\<lparr>timers := (timers tc)[unat timer_id := handle]\<rparr>)) = TCP_N_TIMERS"
    using ok by (simp add: tcp_timers_ok_iff)
next
  fix j assume j: "j < TCP_N_TIMERS"
  have len: "length (timers tc) = TCP_N_TIMERS" using ok by (simp add: tcp_timers_ok_iff)
  show "tcp_timer_slot_ok (tcp_wheel_update tm tc w)
          (tc\<lparr>timers := (timers tc)[unat timer_id := handle]\<rparr>) j"
  proof (cases "j = unat timer_id")
    case True
    then show ?thesis
      using k tw_timer_start_owner [OF st] by (simp add: tcp_timer_slot_ok_def)
  next
    case False
    have "tcp_timer_slot_ok tm tc j" using ok j by (simp add: tcp_timers_ok_iff)
    then show ?thesis
      using False tw_timer_start_other [OF st]
      by (auto simp: tcp_timer_slot_ok_def)
  qed
qed

lemma tcp_timer_set_ok:
  assumes "tcp_timers_ok tm tc"
    and "tcp_timer_set env tm tc timer_id interval = Inr (tm', tc')"
  shows "tcp_timers_ok tm' tc'"
  using assms tcp_timer_start_ok [of tm tc timer_id interval]
  by (auto simp: tcp_timer_set_def split: if_splits option.splits prod.splits)

lemma tcp_timer_update_ok:
  assumes ok: "tcp_timers_ok tm tc"
    and r: "tcp_timer_update env tm tc timer_id interval = Inr (tm', tc')"
  shows "tcp_timers_ok tm' tc'"
proof (cases "timers tc ! unat timer_id = TCP_TIMER_HANDLE_INVALID")
  case True
  then show ?thesis
    using ok r tcp_timer_start_ok [of tm tc timer_id interval]
    by (auto simp: tcp_timer_update_def split: if_splits option.splits prod.splits)
next
  case False
  with r have tm': "tm' = tcp_wheel_update tm tc
        (tw_timer_update (tcp_wheel tm tc) (timers tc ! unat timer_id) interval)"
    and tc': "tc' = tc"
    by (auto simp: tcp_timer_update_def split: if_splits)
  show ?thesis
    using ok unfolding tm' tc' tcp_timers_ok_iff
    by (simp add: tcp_timer_slot_ok_def tw_timer_update_owner)
qed

lemma tcp_timer_reset_ok:
  assumes ok: "tcp_timers_ok tm tc"
    and r: "tcp_timer_reset env tm tc timer_id = Inr (tm', tc')"
  shows "tcp_timers_ok tm' tc'"
proof (cases "timers tc ! unat timer_id = TCP_TIMER_HANDLE_INVALID")
  case True
  with r have "tm' = tm" "tc' = tc"
    by (auto simp: tcp_timer_reset_def split: if_splits)
  with ok show ?thesis by simp
next
  case False
  let ?h = "timers tc ! unat timer_id"
  from r False have k: "unat timer_id < length (timers tc)"
    and tm': "tm' = tcp_wheel_update tm tc (tw_timer_stop (tcp_wheel tm tc) ?h)"
    and tc': "tc' = tc\<lparr>timers := (timers tc)[unat timer_id := TCP_TIMER_HANDLE_INVALID]\<rparr>"
    by (auto simp: tcp_timer_reset_def split: if_splits)
  have len: "length (timers tc) = TCP_N_TIMERS" using ok by (simp add: tcp_timers_ok_iff)
  have ownk: "tw_owner (tcp_wheel tm tc) ?h = Some (c_c_index tc, timer_id)"
  proof -
    have "tcp_timer_slot_ok tm tc (unat timer_id)"
      using ok k len by (simp add: tcp_timers_ok_iff)
    then show ?thesis using False by (simp add: tcp_timer_slot_ok_def)
  qed
  show ?thesis unfolding tcp_timers_ok_iff
  proof (intro conjI allI impI)
    show "length (timers tc') = TCP_N_TIMERS" using len by (simp add: tc')
  next
    fix j assume j: "j < TCP_N_TIMERS"
    show "tcp_timer_slot_ok tm' tc' j"
    proof (cases "j = unat timer_id")
      case True
      then show ?thesis using k by (simp add: tcp_timer_slot_ok_def tc')
    next
      case ne: False
      have sj: "tcp_timer_slot_ok tm tc j" using ok j by (simp add: tcp_timers_ok_iff)
      show ?thesis
      proof (cases "timers tc ! j = TCP_TIMER_HANDLE_INVALID")
        case True
        then show ?thesis using ne by (simp add: tcp_timer_slot_ok_def tc')
      next
        case False
        with sj have ownj: "tw_owner (tcp_wheel tm tc) (timers tc ! j)
            = Some (c_c_index tc, of_nat j)"
          by (simp add: tcp_timer_slot_ok_def)
        have "j < 256" using j by (simp add: TCP_N_TIMERS_eq)
        then have "of_nat j \<noteq> timer_id" using ne by (simp add: u8_of_nat_unat_eq)
        then have "unat (timers tc ! j) \<noteq> unat ?h"
          using ownj ownk by (auto simp: word_unat_eq_iff [symmetric])
        then have "tw_owner (tw_timer_stop (tcp_wheel tm tc) ?h) (timers tc ! j)
            = Some (c_c_index tc, of_nat j)"
          using ownj by (simp add: tw_timer_stop_other)
        then show ?thesis using ne by (simp add: tcp_timer_slot_ok_def tm' tc')
      qed
    qed
  qed
qed

lemma tcp_timer_frame:
  assumes "tcp_timer_set env tm tc timer_id interval = Inr (tm', tc')
           \<or> tcp_timer_reset env tm tc timer_id = Inr (tm', tc')
           \<or> tcp_timer_update env tm tc timer_id interval = Inr (tm', tc')"
  shows "length (timers tc') = length (timers tc)"
    and "j \<noteq> unat timer_id \<Longrightarrow> timers tc' ! j = timers tc ! j"
  using assms
  by (auto simp: tcp_timer_set_def tcp_timer_reset_def tcp_timer_update_def
      split: if_splits option.splits prod.splits)

lemma tcp_timer_set_started:
  assumes k: "unat timer_id < length (timers tc)"
    and r: "tcp_timer_set env tm tc timer_id interval = Inr (tm', tc')"
  shows "timers tc' ! unat timer_id \<noteq> TCP_TIMER_HANDLE_INVALID"
    and "tw_owner (tcp_wheel tm' tc') (timers tc' ! unat timer_id)
           = Some (c_c_index tc, timer_id)"
proof -
  from r obtain w handle where
    st: "tw_timer_start (tcp_wheel tm tc) (c_c_index tc) timer_id interval = Some (w, handle)"
    and tm': "tm' = tcp_wheel_update tm tc w"
    and tc': "tc' = tc\<lparr>timers := (timers tc)[unat timer_id := handle]\<rparr>"
    by (auto simp: tcp_timer_set_def split: if_splits option.splits prod.splits)
  show "timers tc' ! unat timer_id \<noteq> TCP_TIMER_HANDLE_INVALID"
    using k tw_timer_start_handle(2) [OF st] by (simp add: tc')
  show "tw_owner (tcp_wheel tm' tc') (timers tc' ! unat timer_id)
           = Some (c_c_index tc, timer_id)"
    using k tw_timer_start_owner [OF st] by (simp add: tm' tc')
qed

lemma tcp_timer_set_returns:
  assumes "unat timer_id < length (timers tc)"
    and "timers tc ! unat timer_id = TCP_TIMER_HANDLE_INVALID"
    and "\<not> CLIB_ASSERT_ENABLE env \<or> c_thread_index tc = vlib_get_thread_index env"
    and "tw_first_free (tcp_wheel tm tc) < unat TCP_TIMER_HANDLE_INVALID"
  shows "\<exists>tm' tc'. tcp_timer_set env tm tc timer_id interval = Inr (tm', tc')"
  using assms by (auto simp: tcp_timer_set_def tw_timer_start_def Let_def)

text \<open>
  C2, as the code has it. On a slot that holds the invalid sentinel,
  \<open>tcp_timer_update\<close> does exactly what \<open>tcp_timer_set\<close> does: the same result, wheel
  and connection, or the same failure. \<open>tcp_timer_reset\<close> on such a slot returns with
  the wheel and the connection unchanged when it runs on the connection's own thread
  or assertions are compiled out; from another thread, with assertions compiled in, its
  first assertion fails.
\<close>

theorem tcp_timer_update_reset_inactive:
  "unat timer_id < length (timers tc)
     \<and> timers tc ! unat timer_id = TCP_TIMER_HANDLE_INVALID \<longrightarrow>
       tcp_timer_update env tm tc timer_id interval
         = tcp_timer_set env tm tc timer_id interval
     \<and> (\<not> CLIB_ASSERT_ENABLE env \<or> c_thread_index tc = vlib_get_thread_index env \<longrightarrow>
          tcp_timer_reset env tm tc timer_id = Inr (tm, tc))
     \<and> (CLIB_ASSERT_ENABLE env \<and> c_thread_index tc \<noteq> vlib_get_thread_index env \<longrightarrow>
          tcp_timer_reset env tm tc timer_id = Inl ASSERT_thread_index)"
  by (auto simp: tcp_timer_update_def tcp_timer_set_def tcp_timer_reset_def)

theorem tcp_timer_update_reset_inactive_witness:
  "unat (2 :: u8) < length (timers ex_conn)
   \<and> timers ex_conn ! unat (2 :: u8) = TCP_TIMER_HANDLE_INVALID
   \<and> CLIB_ASSERT_ENABLE ex_env
   \<and> c_thread_index ex_conn = vlib_get_thread_index ex_env
   \<and> tcp_timer_set ex_env ex_main ex_conn 2 30
       = Inr (tcp_wheel_update ex_main ex_conn
                [Some \<lparr>tw_pool_index = 0, tw_timer_id = 2, tw_interval = 30\<rparr>],
              ex_conn\<lparr>timers := [TCP_TIMER_HANDLE_INVALID, TCP_TIMER_HANDLE_INVALID, 0,
                                  TCP_TIMER_HANDLE_INVALID, TCP_TIMER_HANDLE_INVALID]\<rparr>)
   \<and> tcp_timer_update ex_env ex_main ex_conn 2 30
       = Inr (tcp_wheel_update ex_main ex_conn
                [Some \<lparr>tw_pool_index = 0, tw_timer_id = 2, tw_interval = 30\<rparr>],
              ex_conn\<lparr>timers := [TCP_TIMER_HANDLE_INVALID, TCP_TIMER_HANDLE_INVALID, 0,
                                  TCP_TIMER_HANDLE_INVALID, TCP_TIMER_HANDLE_INVALID]\<rparr>)
   \<and> tcp_timer_reset ex_env ex_main ex_conn 2 = Inr (ex_main, ex_conn)"
  using tcp_timer_update_reset_inactive [of 2 ex_conn ex_env ex_main 30]
  by (simp add: tcp_timer_set_def tw_timer_start_def tcp_wheel_def
      unat_TCP_TIMER_HANDLE_INVALID ex_conn_def ex_env_def ex_main_def Let_def)

text \<open>
  The claim C2 has \<open>tcp_timer_reset\<close> on an inactive timer return without error in
  every case. Called on thread 0 for the connection of worker 1, with assertions
  compiled in, it fails \<open>ASSERT (tc->c_thread_index == vlib_get_thread_index ())\<close>.
\<close>

theorem tcp_timer_reset_thread_counterexample:
  "timers ex_conn ! unat (2 :: u8) = TCP_TIMER_HANDLE_INVALID
   \<and> tcp_timer_reset (ex_env\<lparr>vlib_get_thread_index := 0\<rparr>) ex_main ex_conn 2
       = Inl ASSERT_thread_index"
  by (simp add: tcp_timer_reset_def ex_conn_def ex_env_def)

text \<open>
  C3. With assertions compiled in, \<open>tcp_timer_set\<close> on a slot whose timer is running
  fails an assertion: the one on the handle, unless the one on the thread fails first.
  On a slot that holds the invalid sentinel the assertion on the handle cannot fail;
  whenever the call returns, the slot holds a handle that differs from the sentinel
  and refers to a running timer of the wheel owned by this connection and kind, so that
  a second \<open>tcp_timer_set\<close> on the slot fails the assertion; and the call does return
  when it runs on the connection's own thread (or assertions are compiled out) and the
  wheel has a handle left.
\<close>

theorem tcp_timer_set_asserts:
  "(CLIB_ASSERT_ENABLE env \<and> unat timer_id < length (timers tc)
      \<and> timers tc ! unat timer_id \<noteq> TCP_TIMER_HANDLE_INVALID \<longrightarrow>
        tcp_timer_set env tm tc timer_id interval =
          Inl (if c_thread_index tc \<noteq> vlib_get_thread_index env
               then ASSERT_thread_index else ASSERT_timer_handle_invalid))
   \<and> (unat timer_id < length (timers tc)
      \<and> timers tc ! unat timer_id = TCP_TIMER_HANDLE_INVALID \<longrightarrow>
        tcp_timer_set env tm tc timer_id interval \<noteq> Inl ASSERT_timer_handle_invalid
      \<and> (\<forall>tm' tc'. tcp_timer_set env tm tc timer_id interval = Inr (tm', tc') \<longrightarrow>
            timers tc' ! unat timer_id \<noteq> TCP_TIMER_HANDLE_INVALID
          \<and> tw_owner (tcp_wheel tm' tc') (timers tc' ! unat timer_id)
               = Some (c_c_index tc, timer_id)
          \<and> (CLIB_ASSERT_ENABLE env \<longrightarrow>
               tcp_timer_set env tm' tc' timer_id interval = Inl ASSERT_timer_handle_invalid))
      \<and> ((\<not> CLIB_ASSERT_ENABLE env \<or> c_thread_index tc = vlib_get_thread_index env)
            \<and> tw_first_free (tcp_wheel tm tc) < unat TCP_TIMER_HANDLE_INVALID \<longrightarrow>
          (\<exists>tm' tc'. tcp_timer_set env tm tc timer_id interval = Inr (tm', tc'))))"
proof (intro conjI impI allI)
  assume "CLIB_ASSERT_ENABLE env \<and> unat timer_id < length (timers tc)
      \<and> timers tc ! unat timer_id \<noteq> TCP_TIMER_HANDLE_INVALID"
  then show "tcp_timer_set env tm tc timer_id interval =
          Inl (if c_thread_index tc \<noteq> vlib_get_thread_index env
               then ASSERT_thread_index else ASSERT_timer_handle_invalid)"
    by (simp add: tcp_timer_set_def)
next
  assume "unat timer_id < length (timers tc)
      \<and> timers tc ! unat timer_id = TCP_TIMER_HANDLE_INVALID"
  then show "tcp_timer_set env tm tc timer_id interval \<noteq> Inl ASSERT_timer_handle_invalid"
    by (auto simp: tcp_timer_set_def split: option.splits)
next
  fix tm' tc'
  assume a: "unat timer_id < length (timers tc)
      \<and> timers tc ! unat timer_id = TCP_TIMER_HANDLE_INVALID"
    and r: "tcp_timer_set env tm tc timer_id interval = Inr (tm', tc')"
  from a have k: "unat timer_id < length (timers tc)" by simp
  show s: "timers tc' ! unat timer_id \<noteq> TCP_TIMER_HANDLE_INVALID"
    using k r by (rule tcp_timer_set_started)
  show "tw_owner (tcp_wheel tm' tc') (timers tc' ! unat timer_id)
               = Some (c_c_index tc, timer_id)"
    using k r by (rule tcp_timer_set_started)
  {
    assume d: "CLIB_ASSERT_ENABLE env"
    have len: "length (timers tc') = length (timers tc)"
      using r tcp_timer_frame(1) [of env tm tc timer_id interval tm' tc'] by simp
    have thr: "c_thread_index tc' = vlib_get_thread_index env"
      using r d by (auto simp: tcp_timer_set_def split: if_splits option.splits prod.splits)
    show "tcp_timer_set env tm' tc' timer_id interval = Inl ASSERT_timer_handle_invalid"
      using d s k len thr by (simp add: tcp_timer_set_def)
  }
next
  assume "unat timer_id < length (timers tc)
      \<and> timers tc ! unat timer_id = TCP_TIMER_HANDLE_INVALID"
    and "(\<not> CLIB_ASSERT_ENABLE env \<or> c_thread_index tc = vlib_get_thread_index env)
            \<and> tw_first_free (tcp_wheel tm tc) < unat TCP_TIMER_HANDLE_INVALID"
  then show "\<exists>tm' tc'. tcp_timer_set env tm tc timer_id interval = Inr (tm', tc')"
    using tcp_timer_set_returns [of timer_id tc env tm interval] by blast
qed

theorem tcp_timer_set_asserts_witness:
  "CLIB_ASSERT_ENABLE ex_env
   \<and> unat (0 :: u8) < length (timers ex_conn)
   \<and> timers ex_conn ! unat (0 :: u8) = TCP_TIMER_HANDLE_INVALID
   \<and> c_thread_index ex_conn = vlib_get_thread_index ex_env
   \<and> tw_first_free (tcp_wheel ex_main ex_conn) < unat TCP_TIMER_HANDLE_INVALID
   \<and> tcp_timer_set ex_env ex_main ex_conn 0 20
       = Inr (tcp_wheel_update ex_main ex_conn
                [Some \<lparr>tw_pool_index = 0, tw_timer_id = 0, tw_interval = 20\<rparr>],
              ex_conn\<lparr>timers := [0, TCP_TIMER_HANDLE_INVALID, TCP_TIMER_HANDLE_INVALID,
                                  TCP_TIMER_HANDLE_INVALID, TCP_TIMER_HANDLE_INVALID]\<rparr>)
   \<and> (0 :: u32) \<noteq> TCP_TIMER_HANDLE_INVALID
   \<and> tcp_timer_set ex_env
        (tcp_wheel_update ex_main ex_conn
           [Some \<lparr>tw_pool_index = 0, tw_timer_id = 0, tw_interval = 20\<rparr>])
        (ex_conn\<lparr>timers := [0, TCP_TIMER_HANDLE_INVALID, TCP_TIMER_HANDLE_INVALID,
                             TCP_TIMER_HANDLE_INVALID, TCP_TIMER_HANDLE_INVALID]\<rparr>) 0 20
       = Inl ASSERT_timer_handle_invalid"
  using tcp_timer_set_asserts [of ex_env 0 ex_conn ex_main 20]
  by (simp add: tcp_timer_set_def tw_timer_start_def tcp_wheel_def tcp_wheel_update_def
      unat_TCP_TIMER_HANDLE_INVALID TCP_TIMER_HANDLE_INVALID_neq_0
      ex_conn_def ex_env_def ex_main_def Let_def)

section \<open>At most one running timer per connection and kind\<close>

lemma tcp_timers_unique_iff:
  "tcp_timers_unique tm tc \<longleftrightarrow>
     length (tcp_wheel tm tc) \<le> unat TCP_TIMER_HANDLE_INVALID
     \<and> (\<forall>i t. i < length (tcp_wheel tm tc) \<and> tcp_wheel tm tc ! i = Some t
               \<and> tw_pool_index t = c_c_index tc \<longrightarrow>
            unat (tw_timer_id t) < length (timers tc)
            \<and> timers tc ! unat (tw_timer_id t) = of_nat i)"
  by (auto simp: tcp_timers_unique_def list_all_iff split: option.splits)

lemma unat_of_nat_u32: "i < 4294967296 \<Longrightarrow> unat (of_nat i :: u32) = i"
  by (simp add: unat_of_nat)

lemma tcp_timers_unique_same_kind:
  assumes u: "tcp_timers_unique tm tc"
    and i: "i < length (tcp_wheel tm tc)" "tcp_wheel tm tc ! i = Some t"
    and j: "j < length (tcp_wheel tm tc)" "tcp_wheel tm tc ! j = Some t'"
    and o: "tw_pool_index t = c_c_index tc" "tw_pool_index t' = c_c_index tc"
      "tw_timer_id t = tw_timer_id t'"
  shows "i = j"
proof -
  from u have len: "length (tcp_wheel tm tc) \<le> 4294967295"
    by (simp add: tcp_timers_unique_iff unat_TCP_TIMER_HANDLE_INVALID)
  from u i o(1) have "timers tc ! unat (tw_timer_id t) = of_nat i"
    by (simp add: tcp_timers_unique_iff)
  moreover from u j o(2) have "timers tc ! unat (tw_timer_id t') = of_nat j"
    by (simp add: tcp_timers_unique_iff)
  ultimately have "(of_nat i :: u32) = of_nat j" using o(3) by simp
  then have "unat (of_nat i :: u32) = unat (of_nat j :: u32)" by simp
  then show ?thesis using i(1) j(1) len by (simp add: unat_of_nat_u32)
qed

lemma tcp_timer_start_unique:
  assumes u: "tcp_timers_unique tm tc"
    and k: "unat timer_id < length (timers tc)"
    and inactive: "timers tc ! unat timer_id = TCP_TIMER_HANDLE_INVALID"
    and st: "tw_timer_start (tcp_wheel tm tc) (c_c_index tc) timer_id interval = Some (w, handle)"
  shows "tcp_timers_unique (tcp_wheel_update tm tc w)
           (tc\<lparr>timers := (timers tc)[unat timer_id := handle]\<rparr>)"
proof -
  let ?w = "tcp_wheel tm tc"
  let ?t0 = "\<lparr>tw_pool_index = c_c_index tc, tw_timer_id = timer_id, tw_interval = interval\<rparr>"
  have uh: "unat handle = tw_first_free ?w" using st by (rule tw_timer_start_handle)
  from st have lt: "tw_first_free ?w < unat TCP_TIMER_HANDLE_INVALID"
    and h: "handle = of_nat (tw_first_free ?w)"
    and w: "w = (if tw_first_free ?w < length ?w then ?w[tw_first_free ?w := Some ?t0]
                 else ?w @ [Some ?t0])"
    by (auto simp: tw_timer_start_def Let_def split: if_splits)
  from u have len: "length ?w \<le> unat TCP_TIMER_HANDLE_INVALID"
    and all: "\<And>i t. i < length ?w \<Longrightarrow> ?w ! i = Some t \<Longrightarrow> tw_pool_index t = c_c_index tc
        \<Longrightarrow> unat (tw_timer_id t) < length (timers tc)
            \<and> timers tc ! unat (tw_timer_id t) = of_nat i"
    by (auto simp: tcp_timers_unique_iff)
  have le: "tw_first_free ?w \<le> length ?w" by (rule tw_first_free_le)
  have lenw: "length w \<le> unat TCP_TIMER_HANDLE_INVALID"
    using len lt le by (auto simp: w)
  have old: "w ! i = ?w ! i \<and> i < length ?w" if "i < length w" "i \<noteq> tw_first_free ?w" for i
    using that le by (auto simp: w nth_append split: if_splits)
  have new: "w ! tw_first_free ?w = Some ?t0"
    using le by (auto simp: w nth_append)
  show ?thesis
    unfolding tcp_timers_unique_iff
  proof (intro conjI allI impI)
    show "length (tcp_wheel (tcp_wheel_update tm tc w)
                   (tc\<lparr>timers := (timers tc)[unat timer_id := handle]\<rparr>))
            \<le> unat TCP_TIMER_HANDLE_INVALID"
      using lenw by simp
  next
    fix i t
    assume a: "i < length (tcp_wheel (tcp_wheel_update tm tc w)
                   (tc\<lparr>timers := (timers tc)[unat timer_id := handle]\<rparr>))
        \<and> tcp_wheel (tcp_wheel_update tm tc w)
                   (tc\<lparr>timers := (timers tc)[unat timer_id := handle]\<rparr>) ! i = Some t
        \<and> tw_pool_index t = c_c_index (tc\<lparr>timers := (timers tc)[unat timer_id := handle]\<rparr>)"
    then have i: "i < length w" and wi: "w ! i = Some t" and own: "tw_pool_index t = c_c_index tc"
      by simp_all
    have "unat (tw_timer_id t) < length (timers tc)
          \<and> (timers tc)[unat timer_id := handle] ! unat (tw_timer_id t) = of_nat i"
    proof (cases "i = tw_first_free ?w")
      case True
      then have "t = ?t0" using wi new by simp
      then show ?thesis using k h True by simp
    next
      case False
      with i have eq: "w ! i = ?w ! i" and il: "i < length ?w" using old by simp_all
      from all [OF il] wi eq own
      have kk: "unat (tw_timer_id t) < length (timers tc)"
        and sl: "timers tc ! unat (tw_timer_id t) = of_nat i" by simp_all
      have "unat (tw_timer_id t) \<noteq> unat timer_id"
      proof
        assume "unat (tw_timer_id t) = unat timer_id"
        with sl inactive have "(of_nat i :: u32) = TCP_TIMER_HANDLE_INVALID" by simp
        then have "unat (of_nat i :: u32) = unat TCP_TIMER_HANDLE_INVALID" by simp
        moreover have "i < 4294967295"
          using il len by (simp add: unat_TCP_TIMER_HANDLE_INVALID)
        ultimately show False
          by (simp add: unat_of_nat_u32 unat_TCP_TIMER_HANDLE_INVALID)
      qed
      then show ?thesis using kk sl by simp
    qed
    then show "unat (tw_timer_id t)
                 < length (timers (tc\<lparr>timers := (timers tc)[unat timer_id := handle]\<rparr>))"
      and "timers (tc\<lparr>timers := (timers tc)[unat timer_id := handle]\<rparr>)
             ! unat (tw_timer_id t) = of_nat i"
      by simp_all
  qed
qed

text \<open>
  \<open>tcp_timer_set\<close> keeps the wheel at one timer per connection and kind when its slot
  is inactive, which is what its second assertion demands; with assertions compiled in
  it does not return otherwise.
\<close>

lemma tcp_timer_set_unique:
  assumes "tcp_timers_unique tm tc"
    and "CLIB_ASSERT_ENABLE env \<or> timers tc ! unat timer_id = TCP_TIMER_HANDLE_INVALID"
    and "tcp_timer_set env tm tc timer_id interval = Inr (tm', tc')"
  shows "tcp_timers_unique tm' tc'"
  using assms tcp_timer_start_unique [of tm tc timer_id interval]
  by (auto simp: tcp_timer_set_def split: if_splits option.splits prod.splits)

lemma tcp_timer_update_unique:
  assumes u: "tcp_timers_unique tm tc"
    and r: "tcp_timer_update env tm tc timer_id interval = Inr (tm', tc')"
  shows "tcp_timers_unique tm' tc'"
proof (cases "timers tc ! unat timer_id = TCP_TIMER_HANDLE_INVALID")
  case True
  then show ?thesis
    using u r tcp_timer_start_unique [of tm tc timer_id interval]
    by (auto simp: tcp_timer_update_def split: if_splits option.splits prod.splits)
next
  case False
  let ?w = "tcp_wheel tm tc"
  let ?h = "timers tc ! unat timer_id"
  from r False have tm': "tm' = tcp_wheel_update tm tc (tw_timer_update ?w ?h interval)"
    and tc': "tc' = tc"
    by (auto simp: tcp_timer_update_def split: if_splits)
  have len: "length (tw_timer_update ?w ?h interval) = length ?w"
    by (simp add: tw_timer_update_def split: option.splits)
  have nth: "\<exists>t0. ?w ! i = Some t0 \<and> tw_pool_index t0 = tw_pool_index t
                 \<and> tw_timer_id t0 = tw_timer_id t"
    if "i < length ?w" "tw_timer_update ?w ?h interval ! i = Some t" for i t
    using that
    by (cases "i = unat ?h") (auto simp: tw_timer_update_def split: option.splits if_splits)
  show ?thesis
    unfolding tm' tc' tcp_timers_unique_iff
  proof (intro conjI allI impI)
    show "length (tcp_wheel (tcp_wheel_update tm tc (tw_timer_update ?w ?h interval)) tc)
            \<le> unat TCP_TIMER_HANDLE_INVALID"
      using u len by (simp add: tcp_timers_unique_iff)
  next
    fix i t
    assume a: "i < length (tcp_wheel (tcp_wheel_update tm tc (tw_timer_update ?w ?h interval)) tc)
        \<and> tcp_wheel (tcp_wheel_update tm tc (tw_timer_update ?w ?h interval)) tc ! i = Some t
        \<and> tw_pool_index t = c_c_index tc"
    then have i: "i < length ?w" and wi: "tw_timer_update ?w ?h interval ! i = Some t"
      and own: "tw_pool_index t = c_c_index tc"
      using len by simp_all
    from nth [OF i wi] obtain t0 where t0: "?w ! i = Some t0"
      "tw_pool_index t0 = tw_pool_index t" "tw_timer_id t0 = tw_timer_id t" by blast
    from u have all: "\<And>i t. i < length ?w \<Longrightarrow> ?w ! i = Some t
        \<Longrightarrow> tw_pool_index t = c_c_index tc
        \<Longrightarrow> unat (tw_timer_id t) < length (timers tc)
            \<and> timers tc ! unat (tw_timer_id t) = of_nat i"
      by (auto simp: tcp_timers_unique_iff)
    have "tw_pool_index t0 = c_c_index tc" using t0(2) own by simp
    with all [OF i t0(1)]
    have "unat (tw_timer_id t0) < length (timers tc)
          \<and> timers tc ! unat (tw_timer_id t0) = of_nat i"
      by blast
    then show "unat (tw_timer_id t) < length (timers tc)"
      and "timers tc ! unat (tw_timer_id t) = of_nat i"
      using t0(3) by simp_all
  qed
qed

lemma tcp_timer_reset_unique:
  assumes u: "tcp_timers_unique tm tc"
    and r: "tcp_timer_reset env tm tc timer_id = Inr (tm', tc')"
  shows "tcp_timers_unique tm' tc'"
proof (cases "timers tc ! unat timer_id = TCP_TIMER_HANDLE_INVALID")
  case True
  with r have "tm' = tm" "tc' = tc"
    by (auto simp: tcp_timer_reset_def split: if_splits)
  with u show ?thesis by simp
next
  case False
  let ?w = "tcp_wheel tm tc"
  let ?h = "timers tc ! unat timer_id"
  from r False have k: "unat timer_id < length (timers tc)"
    and tm': "tm' = tcp_wheel_update tm tc (tw_timer_stop ?w ?h)"
    and tc': "tc' = tc\<lparr>timers := (timers tc)[unat timer_id := TCP_TIMER_HANDLE_INVALID]\<rparr>"
    by (auto simp: tcp_timer_reset_def split: if_splits)
  have len: "length (tw_timer_stop ?w ?h) = length ?w"
    by (simp add: tw_timer_stop_def)
  from u have lenw: "length ?w \<le> 4294967295"
    by (simp add: tcp_timers_unique_iff unat_TCP_TIMER_HANDLE_INVALID)
  show ?thesis
    unfolding tm' tc' tcp_timers_unique_iff
  proof (intro conjI allI impI)
    show "length (tcp_wheel (tcp_wheel_update tm tc (tw_timer_stop ?w ?h))
             (tc\<lparr>timers := (timers tc)[unat timer_id := TCP_TIMER_HANDLE_INVALID]\<rparr>))
            \<le> unat TCP_TIMER_HANDLE_INVALID"
      using u len by (simp add: tcp_timers_unique_iff)
  next
    fix i t
    assume a: "i < length (tcp_wheel (tcp_wheel_update tm tc (tw_timer_stop ?w ?h))
             (tc\<lparr>timers := (timers tc)[unat timer_id := TCP_TIMER_HANDLE_INVALID]\<rparr>))
        \<and> tcp_wheel (tcp_wheel_update tm tc (tw_timer_stop ?w ?h))
             (tc\<lparr>timers := (timers tc)[unat timer_id := TCP_TIMER_HANDLE_INVALID]\<rparr>) ! i
            = Some t
        \<and> tw_pool_index t
            = c_c_index (tc\<lparr>timers := (timers tc)[unat timer_id := TCP_TIMER_HANDLE_INVALID]\<rparr>)"
    then have i: "i < length ?w" and wi: "tw_timer_stop ?w ?h ! i = Some t"
      and own: "tw_pool_index t = c_c_index tc"
      using len by simp_all
    from wi i have ne: "i \<noteq> unat ?h" and w0: "?w ! i = Some t"
      by (auto simp: tw_timer_stop_def nth_list_update split: if_splits)
    from u have all: "\<And>i t. i < length ?w \<Longrightarrow> ?w ! i = Some t
        \<Longrightarrow> tw_pool_index t = c_c_index tc
        \<Longrightarrow> unat (tw_timer_id t) < length (timers tc)
            \<and> timers tc ! unat (tw_timer_id t) = of_nat i"
      by (auto simp: tcp_timers_unique_iff)
    from all [OF i w0 own]
    have kk: "unat (tw_timer_id t) < length (timers tc)"
      and sl: "timers tc ! unat (tw_timer_id t) = of_nat i"
      by simp_all
    have "unat (tw_timer_id t) \<noteq> unat timer_id"
    proof
      assume "unat (tw_timer_id t) = unat timer_id"
      with sl have "?h = of_nat i" by simp
      then have "unat ?h = unat (of_nat i :: u32)" by simp
      then have "unat ?h = i" using i lenw by (simp add: unat_of_nat_u32)
      with ne show False by simp
    qed
    then show "unat (tw_timer_id t)
        < length (timers (tc\<lparr>timers := (timers tc)[unat timer_id := TCP_TIMER_HANDLE_INVALID]\<rparr>))"
      and "timers (tc\<lparr>timers := (timers tc)[unat timer_id := TCP_TIMER_HANDLE_INVALID]\<rparr>)
             ! unat (tw_timer_id t) = of_nat i"
      using kk sl by simp_all
  qed
qed

lemma filter_eq_upt: "filter (\<lambda>i. i = j) [0..<n] = (if j < n then [j] else [])"
  by (induction n) auto

lemma tcp_running_timers_eq:
  assumes ok: "tcp_timers_ok tm tc" and u: "tcp_timers_unique tm tc"
    and k: "k < TCP_N_TIMERS"
  shows "tcp_running_timers tm tc k =
           (if timers tc ! k = TCP_TIMER_HANDLE_INVALID then [] else [unat (timers tc ! k)])"
proof -
  let ?w = "tcp_wheel tm tc"
  let ?h = "timers tc ! k"
  let ?P = "\<lambda>i. case ?w ! i of
                   None \<Rightarrow> False
                 | Some t \<Rightarrow> tw_pool_index t = c_c_index tc \<and> tw_timer_id t = of_nat k"
  from u have len: "length ?w \<le> 4294967295"
    and all: "\<And>i t. i < length ?w \<Longrightarrow> ?w ! i = Some t \<Longrightarrow> tw_pool_index t = c_c_index tc
        \<Longrightarrow> unat (tw_timer_id t) < length (timers tc)
            \<and> timers tc ! unat (tw_timer_id t) = of_nat i"
    by (auto simp: tcp_timers_unique_iff unat_TCP_TIMER_HANDLE_INVALID)
  have k8: "unat (of_nat k :: u8) = k"
    using k by (simp add: TCP_N_TIMERS_eq unat_of_nat)
  have slot: "?h = TCP_TIMER_HANDLE_INVALID
      \<or> tw_owner ?w ?h = Some (c_c_index tc, of_nat k)"
    using ok k by (simp add: tcp_timers_ok_iff tcp_timer_slot_ok_def)
  have P: "?P i \<longleftrightarrow> ?h \<noteq> TCP_TIMER_HANDLE_INVALID \<and> i = unat ?h" if i: "i < length ?w" for i
  proof
    assume "?P i"
    then obtain t where t: "?w ! i = Some t" "tw_pool_index t = c_c_index tc"
      "tw_timer_id t = of_nat k"
      by (auto split: option.splits)
    from all [OF i t(1) t(2)] have "timers tc ! unat (tw_timer_id t) = of_nat i" by simp
    then have h: "?h = of_nat i" using t(3) k8 by simp
    have "unat (of_nat i :: u32) = i" using i len by (simp add: unat_of_nat_u32)
    with h have ui: "unat ?h = i" by simp
    then have "unat ?h \<noteq> unat TCP_TIMER_HANDLE_INVALID"
      using i len by (simp add: unat_TCP_TIMER_HANDLE_INVALID)
    then have "?h \<noteq> TCP_TIMER_HANDLE_INVALID" by auto
    with ui show "?h \<noteq> TCP_TIMER_HANDLE_INVALID \<and> i = unat ?h" by simp
  next
    assume a: "?h \<noteq> TCP_TIMER_HANDLE_INVALID \<and> i = unat ?h"
    with slot have "tw_owner ?w ?h = Some (c_c_index tc, of_nat k)" by simp
    then show "?P i" using a by (auto simp: tw_owner_def split: if_splits option.splits)
  qed
  have "tcp_running_timers tm tc k
          = filter (\<lambda>i. ?h \<noteq> TCP_TIMER_HANDLE_INVALID \<and> i = unat ?h) [0..<length ?w]"
    unfolding tcp_running_timers_def by (rule filter_cong) (simp_all add: P)
  also have "\<dots> = (if ?h = TCP_TIMER_HANDLE_INVALID then [] else [unat ?h])"
  proof (cases "?h = TCP_TIMER_HANDLE_INVALID")
    case True
    then show ?thesis by simp
  next
    case False
    with slot have "tw_owner ?w ?h = Some (c_c_index tc, of_nat k)" by simp
    then have "unat ?h < length ?w" by (auto simp: tw_owner_def split: if_splits)
    then show ?thesis using False by (simp add: filter_eq_upt)
  qed
  finally show ?thesis .
qed

lemma tcp_timers_listed:
  "map fst foreach_tcp_timer =
     [TCP_TIMER_RETRANSMIT, TCP_TIMER_DELACK, TCP_TIMER_PERSIST, TCP_TIMER_WAITCLOSE,
      TCP_TIMER_RETRANSMIT_SYN]"
  by (simp add: foreach_tcp_timer_def)

lemma tcp_timers_all: "set (map fst foreach_tcp_timer) = UNIV"
proof -
  have "t \<in> set (map fst foreach_tcp_timer)" for t
    by (cases t) (simp_all add: foreach_tcp_timer_def)
  then show ?thesis by blast
qed

lemma tcp_timers_distinct: "distinct (map fst foreach_tcp_timer)"
  by (simp add: foreach_tcp_timer_def)

lemma tcp_timer_vals: "map tcp_timer_val (map fst foreach_tcp_timer) = [0..<TCP_N_TIMERS]"
  unfolding TCP_N_TIMERS_eq
  by (simp add: tcp_timer_val_def enum_val_def foreach_tcp_timer_def upt_rec)

lemma tcp_timer_val_less: "tcp_timer_val t < TCP_N_TIMERS"
  unfolding TCP_N_TIMERS_eq
  by (cases t) (simp_all add: tcp_timer_val_def enum_val_def foreach_tcp_timer_def)

text \<open>
  C7, as the code has it. There are exactly five timer kinds, RETRANSMIT, DELACK,
  PERSIST, WAITCLOSE and RETRANSMIT_SYN, with the values 0 to 4, and
  \<open>TCP_N_TIMERS = 5\<close>. A connection whose timers are in order has \<open>TCP_N_TIMERS\<close>
  slots, one per kind, each holding the invalid sentinel or a reference to a running
  timer of the wheel that the connection started for that kind. \<open>tcp_timer_is_active\<close>
  holds iff the kind's slot differs from the sentinel. When moreover every running
  timer the connection owns is the one its kind's slot refers to, the wheel runs at
  most one timer per kind: none for an inactive kind, and for an active kind the one
  its slot refers to. Whenever \<open>tcp_timer_set\<close>, \<open>tcp_timer_reset\<close> or
  \<open>tcp_timer_update\<close> returns, the connection has as many slots as before, no slot
  but the addressed one has changed, and timers that were in order are in order.
  \<open>tcp_timer_reset\<close> and \<open>tcp_timer_update\<close> keep the wheel at one timer per kind;
  \<open>tcp_timer_set\<close> does when the addressed slot is inactive or assertions are compiled
  in, where it does not return on an active slot.
\<close>

theorem tcp_timer_slots:
  "map fst foreach_tcp_timer =
     [TCP_TIMER_RETRANSMIT, TCP_TIMER_DELACK, TCP_TIMER_PERSIST, TCP_TIMER_WAITCLOSE,
      TCP_TIMER_RETRANSMIT_SYN]
   \<and> TCP_N_TIMERS = 5
   \<and> distinct (map fst foreach_tcp_timer)
   \<and> set (map fst foreach_tcp_timer) = UNIV
   \<and> map tcp_timer_val (map fst foreach_tcp_timer) = [0..<TCP_N_TIMERS]
   \<and> tcp_timer_val timer < TCP_N_TIMERS
   \<and> (tcp_timers_ok tm tc \<longrightarrow>
         length (timers tc) = TCP_N_TIMERS
       \<and> (timers tc ! tcp_timer_val timer = TCP_TIMER_HANDLE_INVALID
          \<or> tw_owner (tcp_wheel tm tc) (timers tc ! tcp_timer_val timer)
               = Some (c_c_index tc, of_nat (tcp_timer_val timer))))
   \<and> (tcp_timer_is_active tc timer \<longleftrightarrow>
         timers tc ! tcp_timer_val timer \<noteq> TCP_TIMER_HANDLE_INVALID)
   \<and> (tcp_timers_ok tm tc \<and> tcp_timers_unique tm tc \<longrightarrow>
         tcp_running_timers tm tc (tcp_timer_val timer)
           = (if tcp_timer_is_active tc timer
              then [unat (timers tc ! tcp_timer_val timer)] else [])
       \<and> length (tcp_running_timers tm tc (tcp_timer_val timer)) \<le> 1)
   \<and> (\<forall>tm' tc'.
         tcp_timer_set env tm tc timer_id interval = Inr (tm', tc')
         \<or> tcp_timer_reset env tm tc timer_id = Inr (tm', tc')
         \<or> tcp_timer_update env tm tc timer_id interval = Inr (tm', tc') \<longrightarrow>
           length (timers tc') = length (timers tc)
         \<and> (\<forall>j. j \<noteq> unat timer_id \<longrightarrow> timers tc' ! j = timers tc ! j)
         \<and> (tcp_timers_ok tm tc \<longrightarrow> tcp_timers_ok tm' tc'))
   \<and> (\<forall>tm' tc'.
         tcp_timer_reset env tm tc timer_id = Inr (tm', tc')
         \<or> tcp_timer_update env tm tc timer_id interval = Inr (tm', tc')
         \<or> tcp_timer_set env tm tc timer_id interval = Inr (tm', tc')
            \<and> (CLIB_ASSERT_ENABLE env
                \<or> timers tc ! unat timer_id = TCP_TIMER_HANDLE_INVALID) \<longrightarrow>
           (tcp_timers_unique tm tc \<longrightarrow> tcp_timers_unique tm' tc'))"
proof (intro conjI allI impI)
  show "tcp_timer_is_active tc timer \<longleftrightarrow>
         timers tc ! tcp_timer_val timer \<noteq> TCP_TIMER_HANDLE_INVALID"
    by (rule tcp_timer_is_active_def)
next
  assume "tcp_timers_ok tm tc"
  then show "length (timers tc) = TCP_N_TIMERS" by (simp add: tcp_timers_ok_iff)
next
  assume "tcp_timers_ok tm tc"
  then have "tcp_timer_slot_ok tm tc (tcp_timer_val timer)"
    using tcp_timer_val_less [of timer] by (simp add: tcp_timers_ok_iff)
  then show "timers tc ! tcp_timer_val timer = TCP_TIMER_HANDLE_INVALID
          \<or> tw_owner (tcp_wheel tm tc) (timers tc ! tcp_timer_val timer)
               = Some (c_c_index tc, of_nat (tcp_timer_val timer))"
    by (simp add: tcp_timer_slot_ok_def)
next
  assume a: "tcp_timers_ok tm tc \<and> tcp_timers_unique tm tc"
  then have e: "tcp_running_timers tm tc (tcp_timer_val timer) =
           (if timers tc ! tcp_timer_val timer = TCP_TIMER_HANDLE_INVALID then []
            else [unat (timers tc ! tcp_timer_val timer)])"
    using tcp_timer_val_less [of timer] by (simp add: tcp_running_timers_eq)
  then show "tcp_running_timers tm tc (tcp_timer_val timer)
           = (if tcp_timer_is_active tc timer
              then [unat (timers tc ! tcp_timer_val timer)] else [])"
    by (simp add: tcp_timer_is_active_def)
  from e show "length (tcp_running_timers tm tc (tcp_timer_val timer)) \<le> 1"
    by simp
next
  fix tm' tc'
  assume r: "tcp_timer_set env tm tc timer_id interval = Inr (tm', tc')
         \<or> tcp_timer_reset env tm tc timer_id = Inr (tm', tc')
         \<or> tcp_timer_update env tm tc timer_id interval = Inr (tm', tc')"
  show "length (timers tc') = length (timers tc)"
    using r by (rule tcp_timer_frame)
  {
    fix j assume "j \<noteq> unat timer_id"
    with r show "timers tc' ! j = timers tc ! j" by (rule tcp_timer_frame)
  }
  {
    assume "tcp_timers_ok tm tc"
    with r show "tcp_timers_ok tm' tc'"
      using tcp_timer_set_ok tcp_timer_reset_ok tcp_timer_update_ok by blast
  }
next
  fix tm' tc'
  assume r: "tcp_timer_reset env tm tc timer_id = Inr (tm', tc')
         \<or> tcp_timer_update env tm tc timer_id interval = Inr (tm', tc')
         \<or> tcp_timer_set env tm tc timer_id interval = Inr (tm', tc')
            \<and> (CLIB_ASSERT_ENABLE env
                \<or> timers tc ! unat timer_id = TCP_TIMER_HANDLE_INVALID)"
    and u: "tcp_timers_unique tm tc"
  from r u show "tcp_timers_unique tm' tc'"
    using tcp_timer_set_unique [of tm tc env timer_id interval tm' tc']
      tcp_timer_reset_unique [of tm tc env timer_id tm' tc']
      tcp_timer_update_unique [of tm tc env timer_id interval tm' tc']
    by blast
qed (rule tcp_timers_listed TCP_N_TIMERS_eq tcp_timers_distinct tcp_timers_all
       tcp_timer_vals tcp_timer_val_less)+

lemma ex_timers_ok: "tcp_timers_ok ex_main ex_conn"
  by (simp add: tcp_timers_ok_def tcp_timer_slot_ok_def TCP_N_TIMERS_eq upt_rec ex_conn_def)

lemma ex_timers_unique: "tcp_timers_unique ex_main ex_conn"
  by (simp add: tcp_timers_unique_def tcp_wheel_def ex_main_def)

lemma ex_timer_set:
  "tcp_timer_set ex_env ex_main ex_conn 2 30 = Inr (ex_main_persist, ex_conn_persist)"
  by (simp add: tcp_timer_set_def tw_timer_start_def tcp_wheel_def
      unat_TCP_TIMER_HANDLE_INVALID ex_main_persist_def ex_conn_persist_def
      ex_conn_def ex_env_def ex_main_def Let_def)

lemma ex_timer_reset:
  "tcp_timer_reset ex_env ex_main_persist ex_conn_persist 2
     = Inr (tcp_wheel_update ex_main ex_conn [None], ex_conn)"
  by (simp add: tcp_timer_reset_def tw_timer_stop_def tcp_wheel_def tcp_wheel_update_def
      TCP_TIMER_HANDLE_INVALID_neq_0 ex_main_persist_def ex_conn_persist_def
      ex_conn_def ex_env_def ex_main_def)

lemma ex_timer_update:
  "tcp_timer_update ex_env ex_main_persist ex_conn_persist 2 50
     = Inr (tcp_wheel_update ex_main ex_conn
              [Some \<lparr>tw_pool_index = 0, tw_timer_id = 2, tw_interval = 50\<rparr>],
            ex_conn_persist)"
  by (simp add: tcp_timer_update_def tw_timer_update_def tcp_wheel_def tcp_wheel_update_def
      TCP_TIMER_HANDLE_INVALID_neq_0 ex_main_persist_def ex_conn_persist_def
      ex_conn_def ex_env_def ex_main_def)

theorem tcp_timer_slots_witness:
  "tcp_timers_ok ex_main ex_conn
   \<and> tcp_timers_unique ex_main ex_conn
   \<and> length (timers ex_conn) = TCP_N_TIMERS
   \<and> tcp_timer_val TCP_TIMER_PERSIST = 2
   \<and> \<not> tcp_timer_is_active ex_conn TCP_TIMER_PERSIST
   \<and> tcp_running_timers ex_main ex_conn 2 = []
   \<and> CLIB_ASSERT_ENABLE ex_env
   \<and> tcp_timer_set ex_env ex_main ex_conn 2 30 = Inr (ex_main_persist, ex_conn_persist)
   \<and> tcp_timers_ok ex_main_persist ex_conn_persist
   \<and> tcp_timers_unique ex_main_persist ex_conn_persist
   \<and> tcp_timer_is_active ex_conn_persist TCP_TIMER_PERSIST
   \<and> \<not> tcp_timer_is_active ex_conn_persist TCP_TIMER_RETRANSMIT
   \<and> tcp_running_timers ex_main_persist ex_conn_persist 2 = [0]
   \<and> tcp_timer_update ex_env ex_main_persist ex_conn_persist 2 50
       = Inr (tcp_wheel_update ex_main ex_conn
                [Some \<lparr>tw_pool_index = 0, tw_timer_id = 2, tw_interval = 50\<rparr>],
              ex_conn_persist)
   \<and> tcp_timers_ok
         (tcp_wheel_update ex_main ex_conn
            [Some \<lparr>tw_pool_index = 0, tw_timer_id = 2, tw_interval = 50\<rparr>])
         ex_conn_persist
   \<and> tcp_timers_unique
         (tcp_wheel_update ex_main ex_conn
            [Some \<lparr>tw_pool_index = 0, tw_timer_id = 2, tw_interval = 50\<rparr>])
         ex_conn_persist
   \<and> tcp_timer_reset ex_env ex_main_persist ex_conn_persist 2
       = Inr (tcp_wheel_update ex_main ex_conn [None], ex_conn)
   \<and> tcp_timers_ok (tcp_wheel_update ex_main ex_conn [None]) ex_conn
   \<and> tcp_timers_unique (tcp_wheel_update ex_main ex_conn [None]) ex_conn"
proof -
  note s = tcp_timer_slots [where timer = TCP_TIMER_PERSIST and tm = ex_main and tc = ex_conn
    and env = ex_env and timer_id = 2 and interval = 30]
  note p = tcp_timer_slots [where timer = TCP_TIMER_PERSIST and tm = ex_main_persist
    and tc = ex_conn_persist and env = ex_env and timer_id = 2 and interval = 50]
  have d: "CLIB_ASSERT_ENABLE ex_env" by (simp add: ex_env_def)
  have ok1: "tcp_timers_ok ex_main_persist ex_conn_persist"
    using s ex_timers_ok ex_timer_set by blast
  have u1: "tcp_timers_unique ex_main_persist ex_conn_persist"
    using s ex_timers_unique ex_timer_set d by blast
  have ok2: "tcp_timers_ok
         (tcp_wheel_update ex_main ex_conn
            [Some \<lparr>tw_pool_index = 0, tw_timer_id = 2, tw_interval = 50\<rparr>])
         ex_conn_persist"
    using p ok1 ex_timer_update by blast
  have u2: "tcp_timers_unique
         (tcp_wheel_update ex_main ex_conn
            [Some \<lparr>tw_pool_index = 0, tw_timer_id = 2, tw_interval = 50\<rparr>])
         ex_conn_persist"
    using p u1 ex_timer_update by blast
  have ok3: "tcp_timers_ok (tcp_wheel_update ex_main ex_conn [None]) ex_conn"
    using p ok1 ex_timer_reset by blast
  have u3: "tcp_timers_unique (tcp_wheel_update ex_main ex_conn [None]) ex_conn"
    using p u1 ex_timer_reset by blast
  have v: "tcp_timer_val TCP_TIMER_PERSIST = 2" "tcp_timer_val TCP_TIMER_RETRANSMIT = 0"
    by (simp_all add: tcp_timer_val_def enum_val_def foreach_tcp_timer_def)
  have a: "\<not> tcp_timer_is_active ex_conn TCP_TIMER_PERSIST"
    using s by (simp add: v ex_conn_def)
  have b: "tcp_timer_is_active ex_conn_persist TCP_TIMER_PERSIST"
    "\<not> tcp_timer_is_active ex_conn_persist TCP_TIMER_RETRANSMIT"
    using p tcp_timer_slots [where timer = TCP_TIMER_RETRANSMIT and tm = ex_main_persist
      and tc = ex_conn_persist and env = ex_env and timer_id = 2 and interval = 50]
    by (simp_all add: v ex_conn_persist_def TCP_TIMER_HANDLE_INVALID_neq_0)
  have r0: "tcp_running_timers ex_main ex_conn 2 = []"
    using s ex_timers_ok ex_timers_unique a v(1) by simp
  have "tcp_running_timers ex_main_persist ex_conn_persist 2
          = [unat (timers ex_conn_persist ! 2)]"
    using p ok1 u1 b(1) v(1) by simp
  then have r1: "tcp_running_timers ex_main_persist ex_conn_persist 2 = [0]"
    by (simp add: ex_conn_persist_def)
  have len: "length (timers ex_conn) = TCP_N_TIMERS"
    using s ex_timers_ok by blast
  show ?thesis
    using ex_timers_ok ex_timers_unique len v(1) a r0 d ex_timer_set ok1 u1 b r1
      ex_timer_update ok2 u2 ex_timer_reset ok3 u3
    by blast
qed

text \<open>
  The claim C7 has \<open>tcp_timer_set\<close> preserve at most one active handle per kind in
  every case. Without assertions, \<open>tcp_timer_set\<close> on the slot of the running PERSIST
  timer starts a second timer of that kind and overwrites the slot: the wheel then runs
  two PERSIST timers of the connection, at the references 0 and 1, and the first has no
  slot referring to it.
\<close>

theorem tcp_timer_set_active_counterexample:
  "tcp_timers_ok ex_main_persist ex_conn_persist
   \<and> tcp_timers_unique ex_main_persist ex_conn_persist
   \<and> tcp_running_timers ex_main_persist ex_conn_persist 2 = [0]
   \<and> \<not> CLIB_ASSERT_ENABLE (ex_env\<lparr>CLIB_ASSERT_ENABLE := False\<rparr>)
   \<and> tcp_timer_set (ex_env\<lparr>CLIB_ASSERT_ENABLE := False\<rparr>) ex_main_persist ex_conn_persist 2 30
       = Inr (tcp_wheel_update ex_main ex_conn
                [Some \<lparr>tw_pool_index = 0, tw_timer_id = 2, tw_interval = 30\<rparr>,
                 Some \<lparr>tw_pool_index = 0, tw_timer_id = 2, tw_interval = 30\<rparr>],
              ex_conn\<lparr>timers := [TCP_TIMER_HANDLE_INVALID, TCP_TIMER_HANDLE_INVALID, 1,
                                  TCP_TIMER_HANDLE_INVALID, TCP_TIMER_HANDLE_INVALID]\<rparr>)
   \<and> tcp_running_timers
         (tcp_wheel_update ex_main ex_conn
            [Some \<lparr>tw_pool_index = 0, tw_timer_id = 2, tw_interval = 30\<rparr>,
             Some \<lparr>tw_pool_index = 0, tw_timer_id = 2, tw_interval = 30\<rparr>])
         (ex_conn\<lparr>timers := [TCP_TIMER_HANDLE_INVALID, TCP_TIMER_HANDLE_INVALID, 1,
                              TCP_TIMER_HANDLE_INVALID, TCP_TIMER_HANDLE_INVALID]\<rparr>) 2
       = [0, 1]
   \<and> \<not> tcp_timers_unique
         (tcp_wheel_update ex_main ex_conn
            [Some \<lparr>tw_pool_index = 0, tw_timer_id = 2, tw_interval = 30\<rparr>,
             Some \<lparr>tw_pool_index = 0, tw_timer_id = 2, tw_interval = 30\<rparr>])
         (ex_conn\<lparr>timers := [TCP_TIMER_HANDLE_INVALID, TCP_TIMER_HANDLE_INVALID, 1,
                              TCP_TIMER_HANDLE_INVALID, TCP_TIMER_HANDLE_INVALID]\<rparr>)"
  by (simp add: tcp_timers_ok_def tcp_timer_slot_ok_def tw_owner_def TCP_N_TIMERS_eq
      tcp_timers_unique_def tcp_running_timers_def
      tcp_timer_set_def tw_timer_start_def tcp_wheel_def
      tcp_wheel_update_def unat_TCP_TIMER_HANDLE_INVALID TCP_TIMER_HANDLE_INVALID_neq_0 upt_rec
      ex_main_persist_def ex_conn_persist_def ex_conn_def ex_env_def ex_main_def Let_def)

end
